theory Spec2Isabelle
  imports Main "HOL-Library.AList" "HOL-Library.Multiset"
begin

section \<open>Regional filtering of the gridded sea-ice dataset\<close>

text \<open>
  This theory embeds the function \<^verbatim>\<open>restrictRegionally\<close> (with its nested helper
  \<^verbatim>\<open>checkKeys\<close>) of the two notebooks \<^verbatim>\<open>regional_analysis\<close> and \<^verbatim>\<open>mapping\<close>.
  The function text is the same in both notebooks; what differs is the module
  environment the function runs in: only \<^verbatim>\<open>mapping\<close> executes \<^verbatim>\<open>import warnings\<close>
  (followed by \<^verbatim>\<open>warnings.filterwarnings('ignore')\<close>).

  Python objects are mutable and shared, so datasets, array buffers and attribute
  dictionaries live in an explicit store and are referred to by address. An exception is
  a value: every operation returns either an exception or a result, together with the
  store at that moment.
\<close>

subsection \<open>Python values and exceptions\<close>

text \<open>The values a caller may pass as \<^verbatim>\<open>regionKeyList\<close>, and their Python types.\<close>

datatype pyval =
    PyInt int
  | PyStr string
  | PySet "int list"
  | PyTuple "int list"
  | PyList "int list"

datatype pytype = int_type | str_type | set_type | tuple_type | list_type

fun py_type :: "pyval \<Rightarrow> pytype" where
  "py_type (PyInt i) = int_type"
| "py_type (PyStr t) = str_type"
| "py_type (PySet xs) = set_type"
| "py_type (PyTuple xs) = tuple_type"
| "py_type (PyList xs) = list_type"

text \<open>The elements of a collection, in iteration order. The function only iterates
  over \<^verbatim>\<open>regionKeyList\<close> after \<^verbatim>\<open>checkKeys\<close> has established that it is a list.\<close>

fun py_items :: "pyval \<Rightarrow> int list" where
  "py_items (PyList xs) = xs"
| "py_items (PyTuple xs) = xs"
| "py_items (PySet xs) = xs"
| "py_items (PyStr t) = []"
| "py_items (PyInt i) = []"

datatype exn =
    ValueError string
  | NameError string
  | KeyError string

subsection \<open>Strings: \<^verbatim>\<open>str\<close> of an integer and \<^verbatim>\<open>join\<close>\<close>

definition digit :: "nat \<Rightarrow> char" where
  "digit d = ''0123456789'' ! d"

fun str_nat :: "nat \<Rightarrow> string" where
  "str_nat n = (if n < 10 then [digit n] else str_nat (n div 10) @ [digit (n mod 10)])"

declare str_nat.simps [simp del]

definition str_int :: "int \<Rightarrow> string" where
  "str_int i = (if i < 0 then CHR ''-'' # str_nat (nat (- i)) else str_nat (nat i))"

fun join :: "string \<Rightarrow> string list \<Rightarrow> string" where
  "join sep [] = []"
| "join sep [x] = x"
| "join sep (x # y # ys) = x @ sep @ join sep (y # ys)"

definition newline :: string where
  "newline = [CHR 0x0A]"

definition dquote :: string where
  "dquote = [CHR 0x22]"

subsection \<open>The store\<close>

text \<open>
  An array buffer holds one row of grid cells per time step (a field without a time
  dimension has one row); the cells of a row are the flattened (x, y) grid. \<open>None\<close> is
  the missing-value sentinel (NaN).

  A dataset object holds its data variables as a dictionary from name to array buffer
  (an association list in insertion order), the \<^verbatim>\<open>region_mask\<close> coordinate with its
  two catalogue attributes \<^verbatim>\<open>keys\<close> and \<^verbatim>\<open>labels\<close>, and the address of its
  \<^verbatim>\<open>attrs\<close> dictionary. Following the data model, every data variable is laid out on
  the grid of \<^verbatim>\<open>region_mask\<close>, and the mask holds one integer per cell. The
  coordinates \<^verbatim>\<open>latitude\<close> and \<^verbatim>\<open>longitude\<close> are never read or written by the
  function and are left out.
\<close>

type_synonym addr = nat

type_synonym 'a ndarray = "'a option list list"

type_synonym attrs_dict = "(string \<times> string) list"

record Dataset =
  data_vars :: "(string \<times> addr) list"
  region_mask :: "int list"
  mask_keys :: "int list"
  mask_labels :: "string list"
  attrs :: addr

record 'a pystate =
  datasets :: "Dataset list"
  arrays :: "'a ndarray list"
  dicts :: "attrs_dict list"
  stdout :: "string list"
  shown_warnings :: "string list"

text \<open>The module environment of a notebook: whether the name \<^verbatim>\<open>warnings\<close> is bound,
  and whether the warning filter has been set to \<^verbatim>\<open>'ignore'\<close>.\<close>

record module_env =
  warnings_imported :: bool
  warnings_ignored :: bool

definition regional_analysis_env :: module_env where
  "regional_analysis_env = \<lparr>warnings_imported = False, warnings_ignored = False\<rparr>"

definition mapping_env :: module_env where
  "mapping_env = \<lparr>warnings_imported = True, warnings_ignored = True\<rparr>"

subsection \<open>Library operations used by the function\<close>

text \<open>\<^verbatim>\<open>warnings.warn(msg)\<close>: a \<^verbatim>\<open>NameError\<close> when the module was never imported;
  otherwise the warning is shown unless the filter ignores it.\<close>

definition warnings_warn :: "module_env \<Rightarrow> string \<Rightarrow> 'a pystate \<Rightarrow> (exn + unit) \<times> 'a pystate" where
  "warnings_warn env msg s =
     (if \<not> warnings_imported env then (Inl (NameError ''warnings''), s)
      else if warnings_ignored env then (Inr (), s)
      else (Inr (), s\<lparr>shown_warnings := shown_warnings s @ [msg]\<rparr>))"

definition print :: "string \<Rightarrow> 'a pystate \<Rightarrow> 'a pystate" where
  "print msg s = s\<lparr>stdout := stdout s @ [msg]\<rparr>"

text \<open>\<^verbatim>\<open>pd.DataFrame({'key': keys, 'label': labels})\<close>: a table of rows; columns of
  different lengths are refused.\<close>

definition DataFrame :: "int list \<Rightarrow> string list \<Rightarrow> exn + (int \<times> string) list" where
  "DataFrame ks ls =
     (if length ks \<noteq> length ls then Inl (ValueError ''All arrays must be of the same length'')
      else Inr (zip ks ls))"

text \<open>\<^verbatim>\<open>regionTbl[regionTbl['key'] == key]['label'].item()\<close>: the label of the single
  row with that key; \<^verbatim>\<open>item\<close> raises unless exactly one row was selected.\<close>

definition label_item :: "(int \<times> string) list \<Rightarrow> int \<Rightarrow> exn + string" where
  "label_item regionTbl key =
     (case map snd (filter (\<lambda>row. fst row = key) regionTbl) of
        [l] \<Rightarrow> Inr l
      | _ \<Rightarrow> Inl (ValueError ''can only convert an array of size 1 to a Python scalar''))"

text \<open>The list comprehension over \<^verbatim>\<open>regionKeyList\<close> stops at the first exception.\<close>

fun label_items :: "(int \<times> string) list \<Rightarrow> int list \<Rightarrow> exn + string list" where
  "label_items regionTbl [] = Inr []"
| "label_items regionTbl (key # rest) =
     (case label_item regionTbl key of
        Inl e \<Rightarrow> Inl e
      | Inr l \<Rightarrow> (case label_items regionTbl rest of Inl e \<Rightarrow> Inl e | Inr ls \<Rightarrow> Inr (l # ls)))"

text \<open>\<^verbatim>\<open>dataset.copy()\<close> is a shallow copy: a new dataset object with a new
  \<^verbatim>\<open>attrs\<close> dictionary (same entries), whose variables share the array buffers of the
  original.\<close>

definition Dataset_copy :: "addr \<Rightarrow> 'a pystate \<Rightarrow> addr \<times> 'a pystate" where
  "Dataset_copy ds s =
     (let d = datasets s ! ds;
          new_attrs = length (dicts s);
          s1 = s\<lparr>dicts := dicts s @ [dicts s ! attrs d]\<rparr>
      in (length (datasets s1), s1\<lparr>datasets := datasets s1 @ [d\<lparr>attrs := new_attrs\<rparr>]\<rparr>))"

text \<open>\<^verbatim>\<open>ds[var] = array\<close> and \<^verbatim>\<open>ds.attrs[name] = text\<close> update the object in
  place.\<close>

definition Dataset_setitem :: "addr \<Rightarrow> string \<Rightarrow> addr \<Rightarrow> 'a pystate \<Rightarrow> 'a pystate" where
  "Dataset_setitem ds var a s =
     s\<lparr>datasets := (datasets s)[ds := (datasets s ! ds)
          \<lparr>data_vars := AList.update var a (data_vars (datasets s ! ds))\<rparr>]\<rparr>"

definition attrs_setitem :: "addr \<Rightarrow> string \<Rightarrow> string \<Rightarrow> 'a pystate \<Rightarrow> 'a pystate" where
  "attrs_setitem ds name txt s =
     s\<lparr>dicts := (dicts s)[attrs (datasets s ! ds) :=
          AList.update name txt (dicts s ! attrs (datasets s ! ds))]\<rparr>"

text \<open>\<^verbatim>\<open>array.where(cond)\<close> keeps a cell where the condition holds and puts the
  missing-value sentinel elsewhere; the condition, given per grid cell, is broadcast
  over the time steps. The result is a new array.\<close>

definition where_cond :: "'a ndarray \<Rightarrow> bool list \<Rightarrow> 'a ndarray" where
  "where_cond arr cond = map (\<lambda>row. map2 (\<lambda>v c. if c then v else None) row cond) arr"

definition DataArray_where :: "addr \<Rightarrow> bool list \<Rightarrow> 'a pystate \<Rightarrow> addr \<times> 'a pystate" where
  "DataArray_where a cond s =
     (length (arrays s), s\<lparr>arrays := arrays s @ [where_cond (arrays s ! a) cond]\<rparr>)"

subsection \<open>checkKeys\<close>

definition not_a_list_msg :: string where
  "not_a_list_msg = ''regionKeyList needs to be a list. '' @ newline @
     ''For example, if you want to restrict data to the Beaufort Sea, define regionKeyList = [13]''"

definition unknown_key_msg :: "int \<Rightarrow> string" where
  "unknown_key_msg key = ''Region key '' @ str_int key @ '' does not exist in region mask. '' @
     newline @ '' Redefine regionKeyList with key numbers from table''"

definition empty_selection_msg :: string where
  "empty_selection_msg =
     ''You removed all the data from the dataset. Are you sure you wanted to do this? '' @
     newline @ '' If not, make sure the list regionKeyList is not empty and try again. '' @
     newline @ '' If you intended to keep data from all regions, set regionKeyList = list(tbl['' @
     dquote @ ''key'' @ dquote @ ''])''"

definition checkKeys ::
  "module_env \<Rightarrow> pyval \<Rightarrow> (int \<times> string) list \<Rightarrow> 'a pystate \<Rightarrow> (exn + unit) \<times> 'a pystate" where
  "checkKeys env regionKeyList regionTbl s =
     (if py_type regionKeyList \<noteq> list_type then (Inl (ValueError not_a_list_msg), s)
      else (case find (\<lambda>key. key \<notin> set (map fst regionTbl)) (py_items regionKeyList) of
              Some key \<Rightarrow> (Inl (ValueError (unknown_key_msg key)), s)
            | None \<Rightarrow>
                if length (py_items regionKeyList) = 0
                then warnings_warn env empty_selection_msg s
                else (Inr (), s)))"

subsection \<open>restrictRegionally\<close>

text \<open>The inner loop \<^verbatim>\<open>for key in keysToRemove\<close>: each pass replaces
  \<^verbatim>\<open>regionalVar\<close> by a new array in which the cells of that region are missing.\<close>

fun remove_keys :: "int list \<Rightarrow> int list \<Rightarrow> addr \<Rightarrow> 'a pystate \<Rightarrow> addr \<times> 'a pystate" where
  "remove_keys [] rmask regionalVar s = (regionalVar, s)"
| "remove_keys (key # rest) rmask regionalVar s =
     (case DataArray_where regionalVar (map (\<lambda>m. m \<noteq> key) rmask) s of
        (regionalVar', s') \<Rightarrow> remove_keys rest rmask regionalVar' s')"

text \<open>The outer loop \<^verbatim>\<open>for var in dataset.data_vars\<close>.\<close>

fun filter_vars ::
  "string list \<Rightarrow> int list \<Rightarrow> addr \<Rightarrow> 'a pystate \<Rightarrow> (exn + unit) \<times> 'a pystate" where
  "filter_vars [] keysToRemove regionalDataset s = (Inr (), s)"
| "filter_vars (var # rest) keysToRemove regionalDataset s =
     (if var \<noteq> ''seaice_conc_monthly_cdr'' then
        (case map_of (data_vars (datasets s ! regionalDataset)) var of
           None \<Rightarrow> (Inl (KeyError var), s)
         | Some regionalVar \<Rightarrow>
             (case remove_keys keysToRemove (region_mask (datasets s ! regionalDataset))
                     regionalVar s of
                (regionalVar', s') \<Rightarrow>
                  filter_vars rest keysToRemove regionalDataset
                    (Dataset_setitem regionalDataset var regionalVar' s')))
      else filter_vars rest keysToRemove regionalDataset s)"

definition restrictRegionally ::
  "module_env \<Rightarrow> addr \<Rightarrow> pyval \<Rightarrow> 'a pystate \<Rightarrow> (exn + addr) \<times> 'a pystate" where
  "restrictRegionally env dataset regionKeyList s =
     (let regionMask = datasets s ! dataset in
      case DataFrame (mask_keys regionMask) (mask_labels regionMask) of
        Inl e \<Rightarrow> (Inl e, s)
      | Inr regionTbl \<Rightarrow>
         (case checkKeys env regionKeyList regionTbl s of
            (Inl e, s1) \<Rightarrow> (Inl e, s1)
          | (Inr u, s1) \<Rightarrow>
             (let keysToRemove =
                    filter (\<lambda>key. key \<notin> set (py_items regionKeyList)) (map fst regionTbl)
              in case Dataset_copy dataset s1 of
                (regionalDataset, s2) \<Rightarrow>
                 (case filter_vars (map fst (data_vars (datasets s2 ! dataset))) keysToRemove
                         regionalDataset s2 of
                    (Inl e, s3) \<Rightarrow> (Inl e, s3)
                  | (Inr u', s3) \<Rightarrow>
                     (case label_items regionTbl (py_items regionKeyList) of
                        Inl e \<Rightarrow> (Inl e, s3)
                      | Inr labels \<Rightarrow>
                         if length labels < length (map fst regionTbl) then
                           (let summary =
                                  (if set (py_items regionKeyList) = set [10, 11, 12, 13, 15]
                                   then ''Inner Arctic'' else join '', '' labels);
                                s4 = attrs_setitem regionalDataset ''regions with data'' summary s3
                            in (Inr regionalDataset, print (''Regions selected: '' @ summary) s4))
                         else
                           (let s4 = attrs_setitem regionalDataset ''regions with data'' ''All'' s3
                            in (Inr regionalDataset,
                                print (''Regions selected: All '' @ newline @
                                       ''No regions will be removed'') s4)))))))"

subsection \<open>What a caller observes of a dataset\<close>

definition var_data :: "'a pystate \<Rightarrow> addr \<Rightarrow> (string \<times> 'a ndarray) list" where
  "var_data s ds = map (\<lambda>(n, a). (n, arrays s ! a)) (data_vars (datasets s ! ds))"

definition metadata :: "'a pystate \<Rightarrow> addr \<Rightarrow> attrs_dict" where
  "metadata s ds = dicts s ! attrs (datasets s ! ds)"

text \<open>Everything a caller can read from a dataset: the data of its variables, the region
  mask with its catalogue, and the metadata.\<close>

definition observe ::
  "'a pystate \<Rightarrow> addr \<Rightarrow> (string \<times> 'a ndarray) list \<times> int list \<times> int list \<times> string list \<times> attrs_dict" where
  "observe s ds =
     (var_data s ds, region_mask (datasets s ! ds), mask_keys (datasets s ! ds),
      mask_labels (datasets s ! ds), metadata s ds)"

subsection \<open>Pure counterparts of the masking loop\<close>

text \<open>The array the inner loop ends with, as a function of the array it starts with;
  one single filter by a predicate on the region of a cell; and the shape condition that
  every row of an array has one cell per cell of the mask.\<close>

definition excluded :: "int list \<Rightarrow> int list \<Rightarrow> 'a ndarray \<Rightarrow> 'a ndarray" where
  "excluded ks rmask arr = foldl (\<lambda>a k. where_cond a (map (\<lambda>m. m \<noteq> k) rmask)) arr ks"

definition keep_where :: "(int \<Rightarrow> bool) \<Rightarrow> int list \<Rightarrow> 'a ndarray \<Rightarrow> 'a ndarray" where
  "keep_where p rmask arr = map (\<lambda>row. map2 (\<lambda>v m. if p m then v else None) row rmask) arr"

definition on_grid :: "int list \<Rightarrow> 'a ndarray \<Rightarrow> bool" where
  "on_grid rmask arr = list_all (\<lambda>row. length row = length rmask) arr"

subsection \<open>Well-formed inputs\<close>

text \<open>A reference to a dataset is valid when the dataset object, its \<^verbatim>\<open>attrs\<close>
  dictionary and the buffers of its variables exist in the store, and the names of its
  variables are pairwise different (they are the keys of a dictionary).\<close>

definition valid_ref :: "'a pystate \<Rightarrow> addr \<Rightarrow> bool" where
  "valid_ref s ds \<longleftrightarrow>
     ds < length (datasets s)
   \<and> attrs (datasets s ! ds) < length (dicts s)
   \<and> list_all (\<lambda>a. a < length (arrays s)) (map snd (data_vars (datasets s ! ds)))
   \<and> distinct (map fst (data_vars (datasets s ! ds)))"

text \<open>Every data variable lies on the grid of the region mask.\<close>

definition gridded :: "'a pystate \<Rightarrow> addr \<Rightarrow> bool" where
  "gridded s ds \<longleftrightarrow>
     list_all (\<lambda>a. on_grid (region_mask (datasets s ! ds)) (arrays s ! a))
       (map snd (data_vars (datasets s ! ds)))"

text \<open>Every cell of the region mask belongs to a catalogued region: the catalogue is the
  list of the regions that the mask defines.\<close>

definition mask_catalogued :: "Dataset \<Rightarrow> bool" where
  "mask_catalogued d \<longleftrightarrow> set (region_mask d) \<subseteq> set (mask_keys d)"

text \<open>The region catalogue: as many labels as keys, and no key twice.\<close>

definition catalogue_ok :: "Dataset \<Rightarrow> bool" where
  "catalogue_ok d \<longleftrightarrow> length (mask_keys d) = length (mask_labels d) \<and> distinct (mask_keys d)"

definition regionTbl_of :: "Dataset \<Rightarrow> (int \<times> string) list" where
  "regionTbl_of d = zip (mask_keys d) (mask_labels d)"

text \<open>The text stored under \<^verbatim>\<open>'regions with data'\<close> and the line printed, as functions
  of the selection, the labels found and the number of catalogued keys.\<close>

definition summary_text :: "nat \<Rightarrow> int list \<Rightarrow> string list \<Rightarrow> string" where
  "summary_text n rkl labels =
     (if length labels < n
      then (if set rkl = set [10, 11, 12, 13, 15] then ''Inner Arctic'' else join '', '' labels)
      else ''All'')"

definition printed_line :: "nat \<Rightarrow> int list \<Rightarrow> string list \<Rightarrow> string" where
  "printed_line n rkl labels =
     (if length labels < n then ''Regions selected: '' @ summary_text n rkl labels
      else ''Regions selected: All '' @ newline @ ''No regions will be removed'')"

subsection \<open>Example inputs\<close>

text \<open>A small dataset on a grid of four cells with two time steps, with a catalogue of six
  regions; and the same dataset with a seventh catalogued region.\<close>

definition example_dataset :: Dataset where
  "example_dataset =
     \<lparr>data_vars = [(''ice_thickness'', 0), (''seaice_conc_monthly_cdr'', 1)],
      region_mask = [13, 10, 21, 15],
      mask_keys = [10, 11, 12, 13, 15, 21],
      mask_labels = [''Laptev Sea'', ''E. Siberian Sea'', ''Chukchi Sea'', ''Beaufort Sea'',
                     ''Arctic Ocean'', ''Coast''],
      attrs = 0\<rparr>"

definition example_state :: "int pystate" where
  "example_state =
     \<lparr>datasets = [example_dataset],
      arrays = [[[Some 1, Some 2, Some 3, Some 4], [Some 5, None, Some 7, Some 8]],
                [[Some 90, Some 80, Some 70, Some 60], [Some 95, Some 85, Some 75, Some 65]]],
      dicts = [[(''title'', ''icesat2-book-data'')]],
      stdout = [],
      shown_warnings = []\<rparr>"

definition wider_state :: "int pystate" where
  "wider_state =
     example_state\<lparr>datasets :=
       [example_dataset\<lparr>mask_keys := 9 # mask_keys example_dataset,
                        mask_labels := ''Kara Sea'' # mask_labels example_dataset\<rparr>]\<rparr>"

section \<open>Properties of the array operations\<close>

lemma excluded_Nil [simp]: "excluded [] rmask arr = arr"
  by (simp add: excluded_def)

lemma excluded_Cons [simp]:
  "excluded (k # ks) rmask arr = excluded ks rmask (where_cond arr (map (\<lambda>m. m \<noteq> k) rmask))"
  by (simp add: excluded_def)

lemma where_cond_keep_where:
  "where_cond arr (map p rmask) = keep_where p rmask arr"
  by (simp add: where_cond_def keep_where_def zip_map2 case_prod_unfold)

lemma map2_again:
  "map2 g (map2 f row ms) ms = map2 (\<lambda>v m. g (f v m) m) row ms"
proof (induction row arbitrary: ms)
  case Nil
  show ?case by simp
next
  case (Cons v row)
  then show ?case by (cases ms) simp_all
qed

lemma map2_fst:
  "length row = length ms \<Longrightarrow> map2 (\<lambda>v m. v) row ms = row"
  by (induction row ms rule: list_induct2) simp_all

lemma keep_where_idle:
  "on_grid rmask arr \<Longrightarrow> keep_where (\<lambda>m. True) rmask arr = arr"
  by (simp add: keep_where_def on_grid_def list_all_iff map2_fst map_idI)

lemma keep_where_twice:
  "keep_where q rmask (keep_where p rmask arr) = keep_where (\<lambda>m. p m \<and> q m) rmask arr"
proof -
  have "(\<lambda>v m. if q m then (if p m then v else None) else None)
        = (\<lambda>(v::'a option) m. if p m \<and> q m then v else None)"
    by (intro ext) simp
  then show ?thesis
    by (simp add: keep_where_def map2_again)
qed

lemma on_grid_keep_where:
  "on_grid rmask arr \<Longrightarrow> on_grid rmask (keep_where p rmask arr)"
  by (simp add: keep_where_def on_grid_def list_all_iff)

lemma excluded_keep_where:
  "excluded ks rmask (keep_where p rmask arr) = keep_where (\<lambda>m. p m \<and> m \<notin> set ks) rmask arr"
proof (induction ks arbitrary: p)
  case Nil
  show ?case by simp
next
  case (Cons k ks)
  have "(\<lambda>m. (p m \<and> m \<noteq> k) \<and> m \<notin> set ks) = (\<lambda>m. p m \<and> m \<notin> set (k # ks))"
    by (intro ext) auto
  with Cons show ?case
    by (simp add: where_cond_keep_where keep_where_twice)
qed

lemma excluded_single_predicate:
  "on_grid rmask arr \<Longrightarrow> excluded ks rmask arr = keep_where (\<lambda>m. m \<notin> set ks) rmask arr"
  using excluded_keep_where [of ks rmask "\<lambda>m. True" arr] by (simp add: keep_where_idle)

lemma keep_where_cell:
  "t < length arr \<Longrightarrow> i < length (arr ! t) \<Longrightarrow> i < length rmask \<Longrightarrow>
   keep_where p rmask arr ! t ! i = (if p (rmask ! i) then arr ! t ! i else None)"
  by (simp add: keep_where_def)

lemma keep_where_shape:
  "length (keep_where p rmask arr) = length arr"
  "t < length arr \<Longrightarrow> length (keep_where p rmask arr ! t) = min (length (arr ! t)) (length rmask)"
  by (simp_all add: keep_where_def)

section \<open>The two loops\<close>

lemma remove_keys_spec:
  "a < length (arrays s) \<Longrightarrow>
   \<exists>a' ext. remove_keys ks rmask a s = (a', s\<lparr>arrays := arrays s @ ext\<rparr>)
     \<and> a' < length (arrays s @ ext)
     \<and> (arrays s @ ext) ! a' = excluded ks rmask (arrays s ! a)"
proof (induction ks arbitrary: a s)
  case Nil
  then have "remove_keys [] rmask a s = (a, s\<lparr>arrays := arrays s @ []\<rparr>)
     \<and> a < length (arrays s @ [])
     \<and> (arrays s @ []) ! a = excluded [] rmask (arrays s ! a)"
    by simp
  then show ?case by blast
next
  case (Cons k ks)
  define w where "w = where_cond (arrays s ! a) (map (\<lambda>m. m \<noteq> k) rmask)"
  define s1 where "s1 = s\<lparr>arrays := arrays s @ [w]\<rparr>"
  have step: "DataArray_where a (map (\<lambda>m. m \<noteq> k) rmask) s = (length (arrays s), s1)"
    by (simp add: DataArray_where_def s1_def w_def)
  have "length (arrays s) < length (arrays s1)"
    by (simp add: s1_def)
  from Cons.IH [OF this] obtain a' ext where
    run: "remove_keys ks rmask (length (arrays s)) s1 = (a', s1\<lparr>arrays := arrays s1 @ ext\<rparr>)"
    and bound: "a' < length (arrays s1 @ ext)"
    and cont: "(arrays s1 @ ext) ! a' = excluded ks rmask (arrays s1 ! length (arrays s))"
    by blast
  have "remove_keys (k # ks) rmask a s = (a', s\<lparr>arrays := arrays s @ ([w] @ ext)\<rparr>)"
    using step run by (simp add: s1_def)
  moreover have "a' < length (arrays s @ ([w] @ ext))"
    using bound by (simp add: s1_def)
  moreover have "(arrays s @ ([w] @ ext)) ! a' = excluded (k # ks) rmask (arrays s ! a)"
    using cont by (simp add: s1_def w_def)
  ultimately show ?case by blast
qed


lemma update_as_map:
  "k \<in> fst ` set al \<Longrightarrow> distinct (map fst al) \<Longrightarrow>
   AList.update k v al = map (\<lambda>(n, x). (n, if n = k then v else x)) al"
proof (induction al)
  case Nil
  then show ?case by simp
next
  case (Cons p ps)
  show ?case
  proof (cases "fst p = k")
    case True
    with Cons.prems have "\<forall>q \<in> set ps. fst q \<noteq> k"
      by (force simp: image_iff)
    then have "map (\<lambda>(n, x). (n, if n = k then v else x)) ps = ps"
      by (intro map_idI) auto
    with True show ?thesis
      by (cases p) simp
  next
    case False
    with Cons show ?thesis
      by (cases p) auto
  qed
qed

lemma map_of_distinct_member:
  "distinct (map fst al) \<Longrightarrow> (k, x) \<in> set al \<Longrightarrow> map_of al k = Some x"
  by simp

lemma filter_vars_spec:
  assumes "rd < length (datasets s)"
    and "\<forall>a \<in> snd ` set (data_vars (datasets s ! rd)). a < length (arrays s)"
    and "distinct (map fst (data_vars (datasets s ! rd)))"
    and "set vars \<subseteq> fst ` set (data_vars (datasets s ! rd))"
    and "distinct vars"
  shows "\<exists>dv ext.
      filter_vars vars ktr rd s =
        (Inr (), s\<lparr>datasets := (datasets s)[rd := (datasets s ! rd)\<lparr>data_vars := dv\<rparr>],
                    arrays := arrays s @ ext\<rparr>)
    \<and> map fst dv = map fst (data_vars (datasets s ! rd))
    \<and> (\<forall>a \<in> snd ` set dv. a < length (arrays s @ ext))
    \<and> map (\<lambda>(n, a). (n, (arrays s @ ext) ! a)) dv =
        map (\<lambda>(n, a). (n, if n \<in> set vars \<and> n \<noteq> ''seaice_conc_monthly_cdr''
                           then excluded ktr (region_mask (datasets s ! rd)) (arrays s ! a)
                           else arrays s ! a))
          (data_vars (datasets s ! rd))"
  using assms
proof (induction vars arbitrary: s)
  case Nil
  let ?dv = "data_vars (datasets s ! rd)"
  have "filter_vars [] ktr rd s =
        (Inr (), s\<lparr>datasets := (datasets s)[rd := (datasets s ! rd)\<lparr>data_vars := ?dv\<rparr>],
                    arrays := arrays s @ []\<rparr>)"
    by simp
  moreover have "\<forall>a \<in> snd ` set ?dv. a < length (arrays s @ [])"
    using Nil.prems(2) by simp
  moreover have "map (\<lambda>(n, a). (n, (arrays s @ []) ! a)) ?dv =
        map (\<lambda>(n, a). (n, if n \<in> set [] \<and> n \<noteq> ''seaice_conc_monthly_cdr''
                           then excluded ktr (region_mask (datasets s ! rd)) (arrays s ! a)
                           else arrays s ! a)) ?dv"
    by simp
  ultimately show ?case by blast
next
  case (Cons var rest)
  let ?d = "datasets s ! rd"
  let ?dvs = "data_vars ?d"
  let ?rm = "region_mask ?d"
  show ?case
  proof (cases "var = ''seaice_conc_monthly_cdr''")
    case True
    have "set rest \<subseteq> fst ` set ?dvs" "distinct rest"
      using Cons.prems by auto
    from Cons.IH [OF Cons.prems(1) Cons.prems(2) Cons.prems(3) this]
    obtain dv ext where
      run: "filter_vars rest ktr rd s =
        (Inr (), s\<lparr>datasets := (datasets s)[rd := ?d\<lparr>data_vars := dv\<rparr>],
                    arrays := arrays s @ ext\<rparr>)"
      and names: "map fst dv = map fst ?dvs"
      and bound: "\<forall>a \<in> snd ` set dv. a < length (arrays s @ ext)"
      and cont: "map (\<lambda>(n, a). (n, (arrays s @ ext) ! a)) dv =
        map (\<lambda>(n, a). (n, if n \<in> set rest \<and> n \<noteq> ''seaice_conc_monthly_cdr''
                           then excluded ktr ?rm (arrays s ! a) else arrays s ! a)) ?dvs"
      by blast
    have "filter_vars (var # rest) ktr rd s =
        (Inr (), s\<lparr>datasets := (datasets s)[rd := ?d\<lparr>data_vars := dv\<rparr>],
                    arrays := arrays s @ ext\<rparr>)"
      using run True by simp
    moreover have "map (\<lambda>(n, a). (n, (arrays s @ ext) ! a)) dv =
        map (\<lambda>(n, a). (n, if n \<in> set (var # rest) \<and> n \<noteq> ''seaice_conc_monthly_cdr''
                           then excluded ktr ?rm (arrays s ! a) else arrays s ! a)) ?dvs"
      unfolding cont using True by (intro map_cong) auto
    ultimately show ?thesis
      using names bound by blast
  next
    case False
    from Cons.prems(4) obtain a where mem: "(var, a) \<in> set ?dvs"
      by auto
    then have look: "map_of ?dvs var = Some a"
      using Cons.prems(3) by simp
    have a_ok: "a < length (arrays s)"
      using mem Cons.prems(2) by force
    from remove_keys_spec [OF a_ok, of ktr ?rm] obtain a' ext1 where
      inner: "remove_keys ktr ?rm a s = (a', s\<lparr>arrays := arrays s @ ext1\<rparr>)"
      and a'_ok: "a' < length (arrays s @ ext1)"
      and a'_cont: "(arrays s @ ext1) ! a' = excluded ktr ?rm (arrays s ! a)"
      by blast
    define s1 where "s1 = Dataset_setitem rd var a' (s\<lparr>arrays := arrays s @ ext1\<rparr>)"
    have upd: "AList.update var a' ?dvs = map (\<lambda>(n, x). (n, if n = var then a' else x)) ?dvs"
      using mem Cons.prems(3) by (intro update_as_map) force+
    have s1_ds: "datasets s1 = (datasets s)[rd := ?d\<lparr>data_vars := AList.update var a' ?dvs\<rparr>]"
      and s1_arr: "arrays s1 = arrays s @ ext1"
      by (simp_all add: s1_def Dataset_setitem_def)
    have s1_rd: "datasets s1 ! rd = ?d\<lparr>data_vars := AList.update var a' ?dvs\<rparr>"
      using Cons.prems(1) by (simp add: s1_ds)
    have dv1: "data_vars (datasets s1 ! rd) = AList.update var a' ?dvs"
      and rm1: "region_mask (datasets s1 ! rd) = ?rm"
      by (simp_all add: s1_rd)
    have p1: "rd < length (datasets s1)"
      using Cons.prems(1) by (simp add: s1_ds)
    have p2: "\<forall>x \<in> snd ` set (data_vars (datasets s1 ! rd)). x < length (arrays s1)"
      using Cons.prems(2) a'_ok by (auto simp: s1_rd s1_arr upd)
    have p3: "distinct (map fst (data_vars (datasets s1 ! rd)))"
      using Cons.prems(3) by (simp add: s1_rd distinct_update)
    have p4: "set rest \<subseteq> fst ` set (data_vars (datasets s1 ! rd))"
      using Cons.prems(4) by (auto simp: s1_rd dom_update)
    have p5: "distinct rest" and fresh: "var \<notin> set rest"
      using Cons.prems(5) by simp_all
    from Cons.IH [OF p1 p2 p3 p4 p5] obtain dv ext2 where
      run: "filter_vars rest ktr rd s1 =
        (Inr (), s1\<lparr>datasets := (datasets s1)[rd := (datasets s1 ! rd)\<lparr>data_vars := dv\<rparr>],
                     arrays := arrays s1 @ ext2\<rparr>)"
      and names: "map fst dv = map fst (data_vars (datasets s1 ! rd))"
      and bound: "\<forall>x \<in> snd ` set dv. x < length (arrays s1 @ ext2)"
      and cont: "map (\<lambda>(n, x). (n, (arrays s1 @ ext2) ! x)) dv =
        map (\<lambda>(n, x). (n, if n \<in> set rest \<and> n \<noteq> ''seaice_conc_monthly_cdr''
                           then excluded ktr (region_mask (datasets s1 ! rd)) (arrays s1 ! x)
                           else arrays s1 ! x)) (data_vars (datasets s1 ! rd))"
      by blast
    have final: "s1\<lparr>datasets := (datasets s1)[rd := (datasets s1 ! rd)\<lparr>data_vars := dv\<rparr>],
                     arrays := arrays s1 @ ext2\<rparr> =
          s\<lparr>datasets := (datasets s)[rd := ?d\<lparr>data_vars := dv\<rparr>],
             arrays := arrays s @ (ext1 @ ext2)\<rparr>"
      using Cons.prems(1) by (simp add: s1_def Dataset_setitem_def)
    have c1: "filter_vars (var # rest) ktr rd s =
        (Inr (), s\<lparr>datasets := (datasets s)[rd := ?d\<lparr>data_vars := dv\<rparr>],
                    arrays := arrays s @ (ext1 @ ext2)\<rparr>)"
      using False look inner run final by (simp add: s1_def)
    have c2: "map fst dv = map fst ?dvs"
      using names mem by (simp add: s1_rd upd comp_def case_prod_unfold)
    have c3: "\<forall>x \<in> snd ` set dv. x < length (arrays s @ (ext1 @ ext2))"
      using bound by (simp add: s1_arr)
    have c4: "map (\<lambda>(n, x). (n, (arrays s @ (ext1 @ ext2)) ! x)) dv =
        map (\<lambda>(n, x). (n, if n \<in> set (var # rest) \<and> n \<noteq> ''seaice_conc_monthly_cdr''
                           then excluded ktr ?rm (arrays s ! x) else arrays s ! x)) ?dvs"
    proof -
      have "map (\<lambda>(n, x). (n, (arrays s @ (ext1 @ ext2)) ! x)) dv =
            map (\<lambda>(n, x). (n, (arrays s1 @ ext2) ! x)) dv"
        by (simp add: s1_arr)
      also have "\<dots> = map (\<lambda>(n, x). (n, if n \<in> set rest \<and> n \<noteq> ''seaice_conc_monthly_cdr''
                           then excluded ktr ?rm ((arrays s @ ext1) ! x)
                           else (arrays s @ ext1) ! x)) (AList.update var a' ?dvs)"
        using cont by (simp only: dv1 rm1 s1_arr)
      also have "\<dots> = map (\<lambda>(n, x). (n, if n \<in> set (var # rest) \<and> n \<noteq> ''seaice_conc_monthly_cdr''
                           then excluded ktr ?rm (arrays s ! x) else arrays s ! x)) ?dvs"
        unfolding upd map_map
      proof (rule map_cong [OF refl])
        fix p
        assume in_dvs: "p \<in> set ?dvs"
        obtain n x where p: "p = (n, x)"
          by (cases p)
        show "((\<lambda>(n, x). (n, if n \<in> set rest \<and> n \<noteq> ''seaice_conc_monthly_cdr''
                           then excluded ktr ?rm ((arrays s @ ext1) ! x)
                           else (arrays s @ ext1) ! x)) \<circ>
               (\<lambda>(n, x). (n, if n = var then a' else x))) p =
              (case p of (n, x) \<Rightarrow>
                 (n, if n \<in> set (var # rest) \<and> n \<noteq> ''seaice_conc_monthly_cdr''
                     then excluded ktr ?rm (arrays s ! x) else arrays s ! x))"
        proof (cases "n = var")
          case True
          with in_dvs look Cons.prems(3) have "x = a"
            by (simp add: p)
          with True fresh False a'_cont show ?thesis
            by (simp add: p)
        next
          case neq: False
          from in_dvs Cons.prems(2) have "x < length (arrays s)"
            by (force simp: p)
          with neq show ?thesis
            by (simp add: p nth_append)
        qed
      qed
      finally show ?thesis .
    qed
    from c1 c2 c3 c4 show ?thesis by blast
  qed
qed

section \<open>Validation, copying and filtering\<close>

lemma warnings_warn_frame:
  "warnings_warn env msg s = (r, s1) \<Longrightarrow>
   datasets s1 = datasets s \<and> arrays s1 = arrays s \<and> dicts s1 = dicts s \<and> stdout s1 = stdout s"
  by (auto simp: warnings_warn_def split: if_splits)

lemma warnings_warn_Inl:
  "warnings_warn env msg s = (Inl e, s1) \<Longrightarrow> s1 = s \<and> e = NameError ''warnings''"
  by (auto simp: warnings_warn_def split: if_splits)

lemma checkKeys_Inl:
  "checkKeys env v tbl s = (Inl e, s1) \<Longrightarrow> s1 = s"
  by (auto simp: checkKeys_def split: if_splits option.splits dest: warnings_warn_Inl)

lemma checkKeys_Inr:
  assumes "checkKeys env v tbl s = (Inr u, s1)"
  shows "\<exists>rkl. v = PyList rkl \<and> set rkl \<subseteq> fst ` set tbl
     \<and> datasets s1 = datasets s \<and> arrays s1 = arrays s \<and> dicts s1 = dicts s
     \<and> stdout s1 = stdout s"
proof -
  from assms have ty: "py_type v = list_type"
    by (auto simp: checkKeys_def split: if_splits)
  then obtain rkl where v: "v = PyList rkl"
    by (cases v) simp_all
  from assms have none: "find (\<lambda>key. key \<notin> set (map fst tbl)) rkl = None"
    by (auto simp: checkKeys_def v split: option.splits)
  then have "set rkl \<subseteq> fst ` set tbl"
    by (auto simp: find_None_iff)
  moreover from assms none
  have "datasets s1 = datasets s \<and> arrays s1 = arrays s \<and> dicts s1 = dicts s
      \<and> stdout s1 = stdout s"
    by (auto simp: checkKeys_def v split: if_splits dest: warnings_warn_frame)
  ultimately show ?thesis
    using v by blast
qed

lemma checkKeys_valid:
  assumes "set rkl \<subseteq> fst ` set tbl"
  shows "checkKeys env (PyList rkl) tbl s =
     (if rkl = [] then warnings_warn env empty_selection_msg s else (Inr (), s))"
proof -
  from assms have "find (\<lambda>key. key \<notin> set (map fst tbl)) rkl = None"
    by (auto simp: find_None_iff)
  then show ?thesis
    by (simp add: checkKeys_def)
qed

lemma Dataset_copy_eq:
  "Dataset_copy ds s =
     (length (datasets s),
      s\<lparr>dicts := dicts s @ [dicts s ! attrs (datasets s ! ds)],
        datasets := datasets s @ [(datasets s ! ds)\<lparr>attrs := length (dicts s)\<rparr>]\<rparr>)"
  by (simp add: Dataset_copy_def Let_def)

lemma copy_and_filter:
  assumes ok: "valid_ref s ds"
  shows "\<exists>dv ext s2 s3.
      Dataset_copy ds s = (length (datasets s), s2)
    \<and> datasets s2 ! ds = datasets s ! ds
    \<and> filter_vars (map fst (data_vars (datasets s ! ds))) ktr (length (datasets s)) s2 = (Inr (), s3)
    \<and> datasets s3 = datasets s @ [(datasets s ! ds)\<lparr>data_vars := dv, attrs := length (dicts s)\<rparr>]
    \<and> arrays s3 = arrays s @ ext
    \<and> dicts s3 = dicts s @ [dicts s ! attrs (datasets s ! ds)]
    \<and> stdout s3 = stdout s
    \<and> shown_warnings s3 = shown_warnings s
    \<and> map fst dv = map fst (data_vars (datasets s ! ds))
    \<and> list_all (\<lambda>a. a < length (arrays s @ ext)) (map snd dv)
    \<and> map (\<lambda>(n, a). (n, (arrays s @ ext) ! a)) dv =
        map (\<lambda>(n, a). (n, if n \<noteq> ''seaice_conc_monthly_cdr''
                           then excluded ktr (region_mask (datasets s ! ds)) (arrays s ! a)
                           else arrays s ! a))
          (data_vars (datasets s ! ds))"
proof -
  let ?d = "datasets s ! ds"
  let ?rd = "length (datasets s)"
  define s2 where "s2 = s\<lparr>dicts := dicts s @ [dicts s ! attrs ?d],
        datasets := datasets s @ [?d\<lparr>attrs := length (dicts s)\<rparr>]\<rparr>"
  have copy: "Dataset_copy ds s = (?rd, s2)"
    by (simp add: Dataset_copy_eq s2_def)
  from ok have ds: "ds < length (datasets s)"
    and bounds: "\<forall>a \<in> snd ` set (data_vars ?d). a < length (arrays s)"
    and dist: "distinct (map fst (data_vars ?d))"
    by (auto simp: valid_ref_def list_all_iff)
  have same: "datasets s2 ! ds = ?d"
    using ds by (simp add: s2_def nth_append)
  have new: "datasets s2 ! ?rd = ?d\<lparr>attrs := length (dicts s)\<rparr>"
    by (simp add: s2_def)
  have p1: "?rd < length (datasets s2)"
    by (simp add: s2_def)
  have p2: "\<forall>a \<in> snd ` set (data_vars (datasets s2 ! ?rd)). a < length (arrays s2)"
    using bounds by (simp add: new) (simp add: s2_def)
  have p3: "distinct (map fst (data_vars (datasets s2 ! ?rd)))"
    using dist by (simp add: new)
  have p4: "set (map fst (data_vars ?d)) \<subseteq> fst ` set (data_vars (datasets s2 ! ?rd))"
    by (simp add: new)
  from filter_vars_spec [OF p1 p2 p3 p4 dist, of ktr] obtain dv ext where
    run: "filter_vars (map fst (data_vars ?d)) ktr ?rd s2 =
        (Inr (), s2\<lparr>datasets := (datasets s2)[?rd := (datasets s2 ! ?rd)\<lparr>data_vars := dv\<rparr>],
                     arrays := arrays s2 @ ext\<rparr>)"
    and names: "map fst dv = map fst (data_vars (datasets s2 ! ?rd))"
    and bound: "\<forall>a \<in> snd ` set dv. a < length (arrays s2 @ ext)"
    and cont: "map (\<lambda>(n, a). (n, (arrays s2 @ ext) ! a)) dv =
        map (\<lambda>(n, a). (n, if n \<in> set (map fst (data_vars ?d)) \<and> n \<noteq> ''seaice_conc_monthly_cdr''
                           then excluded ktr (region_mask (datasets s2 ! ?rd)) (arrays s2 ! a)
                           else arrays s2 ! a))
          (data_vars (datasets s2 ! ?rd))"
    by blast
  define s3 where "s3 = s2\<lparr>datasets := (datasets s2)[?rd := (datasets s2 ! ?rd)\<lparr>data_vars := dv\<rparr>],
                     arrays := arrays s2 @ ext\<rparr>"
  have f1: "datasets s3 = datasets s @ [?d\<lparr>data_vars := dv, attrs := length (dicts s)\<rparr>]"
    by (simp add: s3_def new) (simp add: s2_def)
  have f2: "arrays s3 = arrays s @ ext" "dicts s3 = dicts s @ [dicts s ! attrs ?d]"
    "stdout s3 = stdout s" "shown_warnings s3 = shown_warnings s"
    by (simp_all add: s3_def s2_def)
  have f3: "map fst dv = map fst (data_vars ?d)"
    using names by (simp add: new)
  have f4: "list_all (\<lambda>a. a < length (arrays s @ ext)) (map snd dv)"
    using bound by (simp add: list_all_iff s2_def)
  have arr2: "arrays s2 = arrays s"
    by (simp add: s2_def)
  have dvnew: "data_vars (datasets s2 ! ?rd) = data_vars ?d"
    and rmnew: "region_mask (datasets s2 ! ?rd) = region_mask ?d"
    by (simp_all add: new)
  have f5: "map (\<lambda>(n, a). (n, (arrays s @ ext) ! a)) dv =
        map (\<lambda>(n, a). (n, if n \<noteq> ''seaice_conc_monthly_cdr''
                           then excluded ktr (region_mask ?d) (arrays s ! a)
                           else arrays s ! a)) (data_vars ?d)"
  proof -
    have "map (\<lambda>(n, a). (n, (arrays s @ ext) ! a)) dv =
        map (\<lambda>(n, a). (n, if n \<in> set (map fst (data_vars ?d)) \<and> n \<noteq> ''seaice_conc_monthly_cdr''
                           then excluded ktr (region_mask ?d) (arrays s ! a)
                           else arrays s ! a)) (data_vars ?d)"
      using cont by (simp only: dvnew rmnew arr2)
    also have "\<dots> = map (\<lambda>(n, a). (n, if n \<noteq> ''seaice_conc_monthly_cdr''
                           then excluded ktr (region_mask ?d) (arrays s ! a)
                           else arrays s ! a)) (data_vars ?d)"
      by (rule map_cong [OF refl]) force
    finally show ?thesis .
  qed
  from copy same run f1 f2 f3 f4 f5 show ?thesis
    unfolding s3_def [symmetric] by blast
qed


lemma restrictRegionally_after_check:
  assumes ok: "valid_ref s ds"
    and tbl: "DataFrame (mask_keys (datasets s ! ds)) (mask_labels (datasets s ! ds)) = Inr tbl"
    and chk: "checkKeys env v tbl s = (Inr u, s1)"
  shows "\<exists>dv ext s3.
      datasets s3 = datasets s @ [(datasets s ! ds)\<lparr>data_vars := dv, attrs := length (dicts s)\<rparr>]
    \<and> arrays s3 = arrays s @ ext
    \<and> dicts s3 = dicts s @ [dicts s ! attrs (datasets s ! ds)]
    \<and> stdout s3 = stdout s
    \<and> shown_warnings s3 = shown_warnings s1
    \<and> map fst dv = map fst (data_vars (datasets s ! ds))
    \<and> list_all (\<lambda>a. a < length (arrays s @ ext)) (map snd dv)
    \<and> map (\<lambda>(n, a). (n, (arrays s @ ext) ! a)) dv =
        map (\<lambda>(n, a). (n, if n \<noteq> ''seaice_conc_monthly_cdr''
                           then excluded (filter (\<lambda>key. key \<notin> set (py_items v)) (map fst tbl))
                                  (region_mask (datasets s ! ds)) (arrays s ! a)
                           else arrays s ! a))
          (data_vars (datasets s ! ds))
    \<and> restrictRegionally env ds v s =
        (case label_items tbl (py_items v) of
           Inl e \<Rightarrow> (Inl e, s3)
         | Inr labels \<Rightarrow>
             (Inr (length (datasets s)),
              s3\<lparr>dicts := dicts s @ [AList.update ''regions with data''
                                        (summary_text (length tbl) (py_items v) labels)
                                        (dicts s ! attrs (datasets s ! ds))],
                 stdout := stdout s @ [printed_line (length tbl) (py_items v) labels]\<rparr>))"
proof -
  let ?d = "datasets s ! ds"
  let ?ktr = "filter (\<lambda>key. key \<notin> set (py_items v)) (map fst tbl)"
  from checkKeys_Inr [OF chk] have s1: "datasets s1 = datasets s" "arrays s1 = arrays s"
    "dicts s1 = dicts s" "stdout s1 = stdout s"
    by auto
  from ok s1 have ok1: "valid_ref s1 ds"
    by (simp add: valid_ref_def)
  from copy_and_filter [OF ok1, of ?ktr] obtain dv ext s2 s3 where
    copy: "Dataset_copy ds s1 = (length (datasets s1), s2)"
    and same: "datasets s2 ! ds = datasets s1 ! ds"
    and run: "filter_vars (map fst (data_vars (datasets s1 ! ds))) ?ktr (length (datasets s1)) s2
               = (Inr (), s3)"
    and f1: "datasets s3 =
        datasets s1 @ [(datasets s1 ! ds)\<lparr>data_vars := dv, attrs := length (dicts s1)\<rparr>]"
    and f2: "arrays s3 = arrays s1 @ ext" "dicts s3 = dicts s1 @ [dicts s1 ! attrs (datasets s1 ! ds)]"
      "stdout s3 = stdout s1" "shown_warnings s3 = shown_warnings s1"
    and f3: "map fst dv = map fst (data_vars (datasets s1 ! ds))"
    and f4: "list_all (\<lambda>a. a < length (arrays s1 @ ext)) (map snd dv)"
    and f5: "map (\<lambda>(n, a). (n, (arrays s1 @ ext) ! a)) dv =
        map (\<lambda>(n, a). (n, if n \<noteq> ''seaice_conc_monthly_cdr''
                           then excluded ?ktr (region_mask (datasets s1 ! ds)) (arrays s1 ! a)
                           else arrays s1 ! a)) (data_vars (datasets s1 ! ds))"
    by (elim exE conjE) (rule that)
  note copy = copy [unfolded s1] and same = same [unfolded s1] and run = run [unfolded s1]
    and f1 = f1 [unfolded s1] and f2 = f2 [unfolded s1] and f3 = f3 [unfolded s1]
    and f4 = f4 [unfolded s1] and f5 = f5 [unfolded s1]
  have new: "datasets s3 ! length (datasets s) = ?d\<lparr>data_vars := dv, attrs := length (dicts s)\<rparr>"
    by (simp add: f1)
  have att: "\<And>txt. attrs_setitem (length (datasets s)) ''regions with data'' txt s3 =
      s3\<lparr>dicts := dicts s @ [AList.update ''regions with data'' txt (dicts s ! attrs ?d)]\<rparr>"
    by (simp add: attrs_setitem_def new f2)
  have step: "restrictRegionally env ds v s =
        (case label_items tbl (py_items v) of
           Inl e \<Rightarrow> (Inl e, s3)
         | Inr labels \<Rightarrow>
             if length labels < length (map fst tbl) then
               (let summary =
                      (if set (py_items v) = set [10, 11, 12, 13, 15]
                       then ''Inner Arctic'' else join '', '' labels);
                    s4 = attrs_setitem (length (datasets s)) ''regions with data'' summary s3
                in (Inr (length (datasets s)), print (''Regions selected: '' @ summary) s4))
             else
               (let s4 = attrs_setitem (length (datasets s)) ''regions with data'' ''All'' s3
                in (Inr (length (datasets s)),
                    print (''Regions selected: All '' @ newline @
                           ''No regions will be removed'') s4)))"
    unfolding restrictRegionally_def Let_def [of "datasets s ! ds"] tbl sum.case chk prod.case
      Let_def [of "filter (\<lambda>key. key \<notin> set (py_items v)) (map fst tbl)"] copy same run
    by (rule refl)
  have fin: "restrictRegionally env ds v s =
        (case label_items tbl (py_items v) of
           Inl e \<Rightarrow> (Inl e, s3)
         | Inr labels \<Rightarrow>
             (Inr (length (datasets s)),
              s3\<lparr>dicts := dicts s @ [AList.update ''regions with data''
                                        (summary_text (length tbl) (py_items v) labels)
                                        (dicts s ! attrs ?d)],
                 stdout := stdout s @ [printed_line (length tbl) (py_items v) labels]\<rparr>))"
  proof (cases "label_items tbl (py_items v)")
    case (Inl e)
    then show ?thesis
      by (simp only: step sum.case)
  next
    case (Inr labels)
    show ?thesis
    proof (cases "length labels < length tbl")
      case True
      then show ?thesis
        unfolding step Inr sum.case Let_def att
        by (simp add: print_def summary_text_def printed_line_def f2)
    next
      case False
      then show ?thesis
        unfolding step Inr sum.case Let_def att
        by (simp add: print_def summary_text_def printed_line_def f2)
    qed
  qed
  show ?thesis
    apply (rule exI [of _ dv], rule exI [of _ ext], rule exI [of _ s3])
    apply (intro conjI)
            apply (rule f1)
           apply (rule f2)
          apply (rule f2)
         apply (rule f2)
        apply (rule f2)
       apply (rule f3)
      apply (rule f4)
     apply (rule f5)
    apply (rule fin)
    done
qed

section \<open>The label lookup\<close>

lemma DataFrame_Inr:
  "DataFrame ks ls = Inr tbl \<Longrightarrow> length ks = length ls \<and> tbl = zip ks ls \<and> map fst tbl = ks"
  by (auto simp: DataFrame_def split: if_splits)

lemma DataFrame_ok:
  "length ks = length ls \<Longrightarrow> DataFrame ks ls = Inr (zip ks ls)"
  by (simp add: DataFrame_def)

lemma map_of_filter_key:
  "map_of tbl k = (case filter (\<lambda>row. fst row = k) tbl of [] \<Rightarrow> None | r # rs \<Rightarrow> Some (snd r))"
  by (induction tbl) auto

lemma label_item_Inr:
  "label_item tbl k = Inr l \<Longrightarrow> map_of tbl k = Some l"
  by (auto simp: label_item_def map_of_filter_key split: list.splits)

lemma filter_key_distinct:
  "distinct (map fst tbl) \<Longrightarrow> (k, l) \<in> set tbl \<Longrightarrow> filter (\<lambda>row. fst row = k) tbl = [(k, l)]"
proof (induction tbl)
  case Nil
  then show ?case by simp
next
  case (Cons p ps)
  show ?case
  proof (cases "p = (k, l)")
    case True
    with Cons.prems have "\<forall>q \<in> set ps. fst q \<noteq> k"
      by (force simp: image_iff)
    then have "filter (\<lambda>row. fst row = k) ps = []"
      by (simp add: filter_empty_conv)
    with True show ?thesis by simp
  next
    case False
    with Cons.prems have "(k, l) \<in> set ps" "fst p \<noteq> k"
      by (auto simp: image_iff)
    with Cons show ?thesis by simp
  qed
qed

lemma label_item_distinct:
  "distinct (map fst tbl) \<Longrightarrow> k \<in> fst ` set tbl \<Longrightarrow> \<exists>l. label_item tbl k = Inr l"
  by (auto simp: label_item_def filter_key_distinct)

lemma label_items_Inr:
  "label_items tbl rkl = Inr labels \<Longrightarrow> map (map_of tbl) rkl = map Some labels"
  by (induction rkl arbitrary: labels) (auto split: sum.splits dest: label_item_Inr)

lemma label_items_length:
  "label_items tbl rkl = Inr labels \<Longrightarrow> length labels = length rkl"
  by (induction rkl arbitrary: labels) (auto split: sum.splits)

lemma label_items_total:
  "distinct (map fst tbl) \<Longrightarrow> set rkl \<subseteq> fst ` set tbl \<Longrightarrow> \<exists>labels. label_items tbl rkl = Inr labels"
proof (induction rkl)
  case Nil
  then show ?case by simp
next
  case (Cons k rkl)
  then obtain l labels where "label_item tbl k = Inr l" "label_items tbl rkl = Inr labels"
    using label_item_distinct [of tbl k] by auto
  then show ?case by simp
qed

lemma catalogue_ok_table:
  "catalogue_ok d \<Longrightarrow> distinct (map fst (regionTbl_of d)) \<and> map fst (regionTbl_of d) = mask_keys d"
  by (simp add: catalogue_ok_def regionTbl_of_def)

lemma checkKeys_warned:
  "checkKeys env (PyList rkl) tbl s = (Inr u, s1) \<Longrightarrow> rkl \<noteq> [] \<or> warnings_imported env"
  by (auto simp: checkKeys_def warnings_warn_def split: if_splits option.splits)

lemma checkKeys_passes:
  assumes "set rkl \<subseteq> fst ` set tbl" and "rkl \<noteq> [] \<or> warnings_imported env"
  shows "\<exists>s1. checkKeys env (PyList rkl) tbl s = (Inr (), s1)"
  using assms by (auto simp: checkKeys_valid warnings_warn_def)


section \<open>The whole function\<close>

lemma var_data_eq:
  assumes "datasets s' ! out = d\<lparr>data_vars := dv, attrs := m\<rparr>"
    and "map (\<lambda>(n, a). (n, arrays s' ! a)) dv =
         map (\<lambda>(n, a). (n, if n \<noteq> ''seaice_conc_monthly_cdr'' then f (arrays s ! a) else arrays s ! a))
           (data_vars (datasets s ! ds))"
  shows "var_data s' out =
         map (\<lambda>(n, arr). (n, if n \<noteq> ''seaice_conc_monthly_cdr'' then f arr else arr)) (var_data s ds)"
proof -
  have "var_data s' out = map (\<lambda>(n, a). (n, arrays s' ! a)) dv"
    by (simp add: var_data_def assms(1))
  also have "\<dots> = map (\<lambda>(n, a). (n, if n \<noteq> ''seaice_conc_monthly_cdr'' then f (arrays s ! a)
                                           else arrays s ! a)) (data_vars (datasets s ! ds))"
    by (rule assms(2))
  also have "\<dots> = map (\<lambda>(n, arr). (n, if n \<noteq> ''seaice_conc_monthly_cdr'' then f arr else arr))
                      (var_data s ds)"
    by (simp add: var_data_def comp_def case_prod_unfold)
  finally show ?thesis .
qed

lemma restrictRegionally_Inr:
  assumes ok: "valid_ref s ds"
    and run: "restrictRegionally env ds v s = (Inr out, s')"
  shows "\<exists>rkl labels.
      v = PyList rkl
    \<and> length (mask_keys (datasets s ! ds)) = length (mask_labels (datasets s ! ds))
    \<and> set rkl \<subseteq> set (mask_keys (datasets s ! ds))
    \<and> (rkl \<noteq> [] \<or> warnings_imported env)
    \<and> label_items (regionTbl_of (datasets s ! ds)) rkl = Inr labels
    \<and> out = length (datasets s)
    \<and> datasets s' = datasets s @ [datasets s' ! out]
    \<and> region_mask (datasets s' ! out) = region_mask (datasets s ! ds)
    \<and> mask_keys (datasets s' ! out) = mask_keys (datasets s ! ds)
    \<and> mask_labels (datasets s' ! out) = mask_labels (datasets s ! ds)
    \<and> (\<exists>ext. arrays s' = arrays s @ ext)
    \<and> (\<exists>m. dicts s' = dicts s @ [m])
    \<and> var_data s' out =
        map (\<lambda>(n, arr). (n, if n \<noteq> ''seaice_conc_monthly_cdr''
                             then excluded (filter (\<lambda>key. key \<notin> set rkl) (mask_keys (datasets s ! ds)))
                                    (region_mask (datasets s ! ds)) arr
                             else arr))
          (var_data s ds)
    \<and> metadata s' out =
        AList.update ''regions with data''
          (summary_text (length (mask_keys (datasets s ! ds))) rkl labels) (metadata s ds)
    \<and> valid_ref s' out"
proof -
  let ?d = "datasets s ! ds"
  obtain tbl where tbl: "DataFrame (mask_keys ?d) (mask_labels ?d) = Inr tbl"
    using run by (cases "DataFrame (mask_keys ?d) (mask_labels ?d)")
      (simp_all add: restrictRegionally_def Let_def)
  from DataFrame_Inr [OF tbl] have len: "length (mask_keys ?d) = length (mask_labels ?d)"
    and tbl_eq: "tbl = regionTbl_of ?d" and keys: "map fst tbl = mask_keys ?d"
    by (simp_all add: regionTbl_of_def)
  obtain r1 s1 where chk0: "checkKeys env v tbl s = (r1, s1)"
    by (cases "checkKeys env v tbl s")
  obtain u where r1: "r1 = Inr u"
    using run tbl chk0 by (cases r1) (simp_all add: restrictRegionally_def Let_def)
  note chk = chk0 [unfolded r1]
  from checkKeys_Inr [OF chk] obtain rkl where v: "v = PyList rkl"
    and sub0: "set rkl \<subseteq> fst ` set tbl"
    by blast
  have sub: "set rkl \<subseteq> set (mask_keys ?d)"
    using sub0 keys by (metis set_map)
  have warned: "rkl \<noteq> [] \<or> warnings_imported env"
    using chk v checkKeys_warned by blast
  from restrictRegionally_after_check [OF ok tbl chk] obtain dv ext s3 where
    f1: "datasets s3 = datasets s @ [?d\<lparr>data_vars := dv, attrs := length (dicts s)\<rparr>]"
    and f2: "arrays s3 = arrays s @ ext" "dicts s3 = dicts s @ [dicts s ! attrs ?d]"
    and f3: "map fst dv = map fst (data_vars ?d)"
    and f4: "list_all (\<lambda>a. a < length (arrays s @ ext)) (map snd dv)"
    and f5: "map (\<lambda>(n, a). (n, (arrays s @ ext) ! a)) dv =
        map (\<lambda>(n, a). (n, if n \<noteq> ''seaice_conc_monthly_cdr''
                           then excluded (filter (\<lambda>key. key \<notin> set (py_items v)) (map fst tbl))
                                  (region_mask ?d) (arrays s ! a)
                           else arrays s ! a)) (data_vars ?d)"
    and fin: "restrictRegionally env ds v s =
        (case label_items tbl (py_items v) of
           Inl e \<Rightarrow> (Inl e, s3)
         | Inr labels \<Rightarrow>
             (Inr (length (datasets s)),
              s3\<lparr>dicts := dicts s @ [AList.update ''regions with data''
                                        (summary_text (length tbl) (py_items v) labels)
                                        (dicts s ! attrs ?d)],
                 stdout := stdout s @ [printed_line (length tbl) (py_items v) labels]\<rparr>))"
    by (elim exE conjE) (rule that)
  obtain labels where labels0: "label_items tbl (py_items v) = Inr labels"
    using run fin by (cases "label_items tbl (py_items v)") simp_all
  have labels: "label_items (regionTbl_of ?d) rkl = Inr labels"
    using labels0 by (simp add: v tbl_eq)
  have tbl_len: "length tbl = length (mask_keys ?d)"
    using keys by (metis length_map)
  from run fin labels0 have out: "out = length (datasets s)"
    and s': "s' = s3\<lparr>dicts := dicts s @ [AList.update ''regions with data''
                                        (summary_text (length tbl) (py_items v) labels)
                                        (dicts s ! attrs ?d)],
                 stdout := stdout s @ [printed_line (length tbl) (py_items v) labels]\<rparr>"
    by simp_all
  have ds': "datasets s' = datasets s @ [?d\<lparr>data_vars := dv, attrs := length (dicts s)\<rparr>]"
    and arr': "arrays s' = arrays s @ ext"
    and dicts': "dicts s' = dicts s @ [AList.update ''regions with data''
                    (summary_text (length (mask_keys ?d)) rkl labels) (dicts s ! attrs ?d)]"
    by (simp_all add: s' f1 f2 v tbl_len)
  have new: "datasets s' ! out = ?d\<lparr>data_vars := dv, attrs := length (dicts s)\<rparr>"
    by (simp add: ds' out)
  have c1: "datasets s' = datasets s @ [datasets s' ! out]"
    by (simp add: new) (simp add: ds')
  have c2: "region_mask (datasets s' ! out) = region_mask ?d"
    "mask_keys (datasets s' ! out) = mask_keys ?d"
    "mask_labels (datasets s' ! out) = mask_labels ?d"
    by (simp_all add: new)
  have c3: "var_data s' out =
        map (\<lambda>(n, arr). (n, if n \<noteq> ''seaice_conc_monthly_cdr''
                             then excluded (filter (\<lambda>key. key \<notin> set rkl) (mask_keys ?d))
                                    (region_mask ?d) arr
                             else arr)) (var_data s ds)"
  proof (rule var_data_eq [OF new])
    show "map (\<lambda>(n, a). (n, arrays s' ! a)) dv =
        map (\<lambda>(n, a). (n, if n \<noteq> ''seaice_conc_monthly_cdr''
                           then excluded (filter (\<lambda>key. key \<notin> set rkl) (mask_keys ?d))
                                  (region_mask ?d) (arrays s ! a)
                           else arrays s ! a)) (data_vars ?d)"
      unfolding arr' by (rule f5 [unfolded v py_items.simps keys])
  qed
  have c4: "metadata s' out = AList.update ''regions with data''
          (summary_text (length (mask_keys ?d)) rkl labels) (metadata s ds)"
    by (simp add: metadata_def new dicts')
  have c5: "valid_ref s' out"
    using ok f3 f4 by (simp add: valid_ref_def new arr') (simp add: ds' dicts' out)
  from v len sub warned labels out c1 c2 arr' dicts' c3 c4 c5 show ?thesis
    by blast
qed

lemma restrictRegionally_returns:
  assumes ok: "valid_ref s ds"
    and len: "length (mask_keys (datasets s ! ds)) = length (mask_labels (datasets s ! ds))"
    and sub: "set rkl \<subseteq> set (mask_keys (datasets s ! ds))"
    and warned: "rkl \<noteq> [] \<or> warnings_imported env"
    and labels: "label_items (regionTbl_of (datasets s ! ds)) rkl = Inr labels"
  shows "\<exists>s'. restrictRegionally env ds (PyList rkl) s = (Inr (length (datasets s)), s')"
proof -
  let ?d = "datasets s ! ds"
  have tbl: "DataFrame (mask_keys ?d) (mask_labels ?d) = Inr (regionTbl_of ?d)"
    using len by (simp add: DataFrame_ok regionTbl_of_def)
  have "set rkl \<subseteq> fst ` set (regionTbl_of ?d)"
    using sub len by (metis DataFrame_Inr tbl set_map)
  from checkKeys_passes [OF this warned] obtain s1 where
    chk: "checkKeys env (PyList rkl) (regionTbl_of ?d) s = (Inr (), s1)"
    by blast
  from restrictRegionally_after_check [OF ok tbl chk] labels show ?thesis
    by auto
qed

lemma map_of_map_keyed:
  "map_of (map (\<lambda>(n, x). (n, g n x)) al) k = map_option (g k) (map_of al k)"
  by (induction al) auto

lemma restrictRegionally_total:
  assumes "valid_ref s ds" and "catalogue_ok (datasets s ! ds)"
    and "set rkl \<subseteq> set (mask_keys (datasets s ! ds))"
    and "rkl \<noteq> [] \<or> warnings_imported env"
  shows "\<exists>s'. restrictRegionally env ds (PyList rkl) s = (Inr (length (datasets s)), s')"
proof -
  let ?d = "datasets s ! ds"
  from catalogue_ok_table [OF assms(2)] have tb: "distinct (map fst (regionTbl_of ?d))"
    "map fst (regionTbl_of ?d) = mask_keys ?d"
    by blast+
  from assms(2) have len: "length (mask_keys ?d) = length (mask_labels ?d)"
    by (simp add: catalogue_ok_def)
  from assms(3) tb(2) have "set rkl \<subseteq> fst ` set (regionTbl_of ?d)"
    by (metis set_map)
  from label_items_total [OF tb(1) this] obtain labels where
    "label_items (regionTbl_of ?d) rkl = Inr labels"
    by blast
  from restrictRegionally_returns [OF assms(1) len assms(3) assms(4) this] show ?thesis .
qed

lemma restrictRegionally_rejects:
  assumes "py_type v \<noteq> list_type \<or> \<not> set (py_items v) \<subseteq> set (mask_keys (datasets s ! ds))"
  shows "\<exists>e. restrictRegionally env ds v s = (Inl e, s)"
proof (cases "DataFrame (mask_keys (datasets s ! ds)) (mask_labels (datasets s ! ds))")
  case (Inl e)
  then show ?thesis
    by (simp add: restrictRegionally_def Let_def)
next
  case (Inr tbl)
  from DataFrame_Inr [OF Inr] have keys: "map fst tbl = mask_keys (datasets s ! ds)"
    by simp
  have "\<exists>e. checkKeys env v tbl s = (Inl e, s)"
  proof (cases "py_type v = list_type")
    case False
    then show ?thesis by (simp add: checkKeys_def)
  next
    case True
    with assms have "\<not> set (py_items v) \<subseteq> set (map fst tbl)"
      by (simp only: keys) simp
    then have "find (\<lambda>key. key \<notin> set (map fst tbl)) (py_items v) \<noteq> None"
      by (auto simp: find_None_iff)
    with True show ?thesis
      by (auto simp: checkKeys_def)
  qed
  then obtain e where "checkKeys env v tbl s = (Inl e, s)"
    by blast
  with Inr show ?thesis
    by (simp add: restrictRegionally_def Let_def)
qed

lemma restrictRegionally_store:
  assumes ok: "valid_ref s ds" and run: "restrictRegionally env ds v s = (r, s')"
  shows "(\<exists>x. datasets s' = datasets s @ x) \<and> (\<exists>x. arrays s' = arrays s @ x)
       \<and> (\<exists>x. dicts s' = dicts s @ x)"
proof (cases "DataFrame (mask_keys (datasets s ! ds)) (mask_labels (datasets s ! ds))")
  case (Inl e)
  with run have "s' = s"
    by (simp add: restrictRegionally_def Let_def)
  then show ?thesis by simp
next
  case (Inr tbl)
  obtain r1 s1 where chk: "checkKeys env v tbl s = (r1, s1)"
    by (cases "checkKeys env v tbl s")
  show ?thesis
  proof (cases r1)
    case (Inl e)
    with chk have "s1 = s"
      using checkKeys_Inl by blast
    with run Inr chk Inl have "s' = s"
      by (simp add: restrictRegionally_def Let_def)
    then show ?thesis by simp
  next
    case r1: (Inr u)
    from restrictRegionally_after_check [OF ok Inr chk [unfolded r1]] obtain dv ext s3 where
      f1: "datasets s3 = datasets s @ [(datasets s ! ds)\<lparr>data_vars := dv, attrs := length (dicts s)\<rparr>]"
      and f2: "arrays s3 = arrays s @ ext" "dicts s3 = dicts s @ [dicts s ! attrs (datasets s ! ds)]"
      and fin: "restrictRegionally env ds v s =
        (case label_items tbl (py_items v) of
           Inl e \<Rightarrow> (Inl e, s3)
         | Inr labels \<Rightarrow>
             (Inr (length (datasets s)),
              s3\<lparr>dicts := dicts s @ [AList.update ''regions with data''
                                        (summary_text (length tbl) (py_items v) labels)
                                        (dicts s ! attrs (datasets s ! ds))],
                 stdout := stdout s @ [printed_line (length tbl) (py_items v) labels]\<rparr>))"
      by (elim exE conjE) (rule that)
    show ?thesis
    proof (cases "label_items tbl (py_items v)")
      case (Inl e)
      with run fin have "s' = s3" by simp
      with f1 f2 show ?thesis by simp
    next
      case (Inr labels)
      with run fin have "s' = s3\<lparr>dicts := dicts s @ [AList.update ''regions with data''
                                        (summary_text (length tbl) (py_items v) labels)
                                        (dicts s ! attrs (datasets s ! ds))],
                 stdout := stdout s @ [printed_line (length tbl) (py_items v) labels]\<rparr>"
        by simp
      with f1 f2 show ?thesis by simp
    qed
  qed
qed

lemma observe_preserved:
  assumes ok: "valid_ref s ds"
    and "datasets s' = datasets s @ x" "arrays s' = arrays s @ y" "dicts s' = dicts s @ z"
  shows "observe s' ds = observe s ds"
proof -
  from ok have ds: "ds < length (datasets s)"
    and at: "attrs (datasets s ! ds) < length (dicts s)"
    and bounds: "\<forall>p \<in> set (data_vars (datasets s ! ds)). snd p < length (arrays s)"
    by (auto simp: valid_ref_def list_all_iff)
  have same: "datasets s' ! ds = datasets s ! ds"
    using ds by (simp add: assms(2) nth_append)
  have "var_data s' ds = var_data s ds"
    unfolding var_data_def same
    by (rule map_cong [OF refl]) (use bounds in \<open>auto simp: assms(3) nth_append\<close>)
  moreover have "metadata s' ds = metadata s ds"
    using at by (simp add: metadata_def same assms(4) nth_append)
  ultimately show ?thesis
    by (simp add: observe_def same)
qed

lemma label_items_Inl:
  "label_items tbl rkl = Inl e \<Longrightarrow>
   e = ValueError ''can only convert an array of size 1 to a Python scalar''"
  by (induction rkl) (auto simp: label_item_def split: sum.splits list.splits)

lemma checkKeys_list_Inl:
  "py_type v = list_type \<Longrightarrow> checkKeys env v tbl s = (Inl e, s1) \<Longrightarrow>
   (\<exists>key. e = ValueError (unknown_key_msg key)) \<or> e = NameError ''warnings''"
  by (auto simp: checkKeys_def warnings_warn_def split: option.splits if_splits)

lemma msg_differ:
  "unknown_key_msg key \<noteq> not_a_list_msg"
  "not_a_list_msg \<noteq> unknown_key_msg key"
  "not_a_list_msg \<noteq> ''can only convert an array of size 1 to a Python scalar''"
  "''can only convert an array of size 1 to a Python scalar'' \<noteq> not_a_list_msg"
  by (simp_all add: unknown_key_msg_def not_a_list_msg_def)

lemma empty_selection_needs_warnings:
  assumes "length (mask_keys (datasets s ! ds)) = length (mask_labels (datasets s ! ds))"
    and "\<not> warnings_imported env"
  shows "restrictRegionally env ds (PyList []) s = (Inl (NameError ''warnings''), s)"
  using assms
  by (simp add: restrictRegionally_def Let_def DataFrame_ok checkKeys_def warnings_warn_def)

lemma var_data_lookup:
  assumes "valid_ref s ds" and "(n, arr) \<in> set (var_data s ds)"
  shows "map_of (var_data s ds) n = Some arr"
proof -
  have "map fst (var_data s ds) = map fst (data_vars (datasets s ! ds))"
    by (simp add: var_data_def comp_def case_prod_unfold)
  with assms(1) have "distinct (map fst (var_data s ds))"
    by (simp add: valid_ref_def)
  with assms(2) show ?thesis
    by simp
qed

lemma gridded_member:
  assumes "gridded s ds" and "(n, arr) \<in> set (var_data s ds)"
  shows "on_grid (region_mask (datasets s ! ds)) arr"
  using assms by (auto simp: gridded_def var_data_def list_all_iff)

lemma keep_where_cong:
  assumes "\<forall>m \<in> set rmask. p m = q m"
  shows "keep_where p rmask arr = keep_where q rmask arr"
proof -
  have "map2 (\<lambda>v m. if p m then v else None) row rmask
      = map2 (\<lambda>v m. if q m then v else None) row rmask" for row :: "'a option list"
    by (rule map_cong [OF refl]) (use assms in \<open>auto dest: set_zip_rightD\<close>)
  then show ?thesis
    by (simp add: keep_where_def)
qed

lemma excluded_idem:
  "excluded ks rmask (excluded ks rmask arr) = excluded ks rmask arr"
proof (cases ks)
  case Nil
  then show ?thesis by simp
next
  case (Cons k ks')
  have "excluded ks rmask arr =
        keep_where (\<lambda>m. m \<noteq> k \<and> m \<notin> set ks') rmask arr"
    by (simp add: Cons where_cond_keep_where excluded_keep_where)
  moreover have "excluded ks rmask (keep_where (\<lambda>m. m \<noteq> k \<and> m \<notin> set ks') rmask arr) =
        keep_where (\<lambda>m. m \<noteq> k \<and> m \<notin> set ks') rmask arr"
    by (simp add: excluded_keep_where Cons)
  ultimately show ?thesis by simp
qed

lemma filter_twice:
  fixes vd :: "(string \<times> 'a ndarray) list"
  shows "map (\<lambda>(n, arr). (n, if n \<noteq> ''seaice_conc_monthly_cdr'' then excluded ks rmask arr else arr))
      (map (\<lambda>(n, arr). (n, if n \<noteq> ''seaice_conc_monthly_cdr'' then excluded ks rmask arr else arr)) vd)
   = map (\<lambda>(n, arr). (n, if n \<noteq> ''seaice_conc_monthly_cdr'' then excluded ks rmask arr else arr)) vd"
  by (simp add: comp_def case_prod_unfold excluded_idem)

section \<open>The claims\<close>

text \<open>
  C1. For a dataset with a region catalogue, whose mask assigns every cell a catalogued
  region, and a list of catalogued keys, the call returns a dataset in which, for every
  data variable other than \<^verbatim>\<open>seaice_conc_monthly_cdr\<close>, the array has the shape of
  the input array, and every cell at every time step keeps its value when the region of
  the cell is an element of \<^verbatim>\<open>regionKeyList\<close> and is the missing-value sentinel when
  it is not.
\<close>

theorem filtered_cells:
  assumes ok: "valid_ref s ds" and grid: "gridded s ds"
    and cat: "catalogue_ok (datasets s ! ds)"
    and known: "mask_catalogued (datasets s ! ds)"
    and sub: "set rkl \<subseteq> set (mask_keys (datasets s ! ds))"
    and warned: "rkl \<noteq> [] \<or> warnings_imported env"
    and var: "(n, arr) \<in> set (var_data s ds)" "n \<noteq> ''seaice_conc_monthly_cdr''"
    and cell: "t < length arr" "i < length (region_mask (datasets s ! ds))"
  shows "\<exists>out s' arr'.
      restrictRegionally env ds (PyList rkl) s = (Inr out, s')
    \<and> map_of (var_data s' out) n = Some arr'
    \<and> length arr' = length arr
    \<and> length (arr' ! t) = length (arr ! t)
    \<and> arr' ! t ! i =
        (if region_mask (datasets s ! ds) ! i \<in> set rkl then arr ! t ! i else None)"
proof -
  let ?d = "datasets s ! ds"
  let ?rm = "region_mask ?d"
  let ?ktr = "filter (\<lambda>key. key \<notin> set rkl) (mask_keys ?d)"
  from restrictRegionally_total [OF ok cat sub warned] obtain s' where
    run: "restrictRegionally env ds (PyList rkl) s = (Inr (length (datasets s)), s')"
    by blast
  from restrictRegionally_Inr [OF ok run] have
    vd: "var_data s' (length (datasets s)) =
        map (\<lambda>(n, arr). (n, if n \<noteq> ''seaice_conc_monthly_cdr''
                             then excluded ?ktr ?rm arr else arr)) (var_data s ds)"
    by auto
  have on: "on_grid ?rm arr"
    using grid var(1) by (rule gridded_member)
  then have row: "length (arr ! t) = length ?rm"
    using cell(1) by (simp add: on_grid_def list_all_iff)
  have ex: "excluded ?ktr ?rm arr = keep_where (\<lambda>m. m \<notin> set ?ktr) ?rm arr"
    using on by (rule excluded_single_predicate)
  have look: "map_of (var_data s' (length (datasets s))) n = Some (excluded ?ktr ?rm arr)"
    using var_data_lookup [OF ok var(1)] var(2) by (simp add: vd map_of_map_keyed)
  have "length (excluded ?ktr ?rm arr) = length arr"
    by (simp add: ex keep_where_shape)
  moreover have "length (excluded ?ktr ?rm arr ! t) = length (arr ! t)"
    using cell(1) row by (simp add: ex keep_where_shape)
  moreover have "?rm ! i \<in> set (mask_keys ?d)"
    using known cell(2) by (auto simp: mask_catalogued_def)
  then have "excluded ?ktr ?rm arr ! t ! i =
        (if ?rm ! i \<in> set rkl then arr ! t ! i else None)"
    using cell row by (auto simp: ex keep_where_cell)
  ultimately show ?thesis
    using run look by blast
qed

text \<open>On the example dataset restricted to the keys 13 and 15: at the second time step
  the cell of region 15 keeps its value 8 and the cell of region 21 is missing.\<close>

theorem filtered_cells_witness:
  "valid_ref example_state 0 \<and> gridded example_state 0
   \<and> catalogue_ok (datasets example_state ! 0)
   \<and> mask_catalogued (datasets example_state ! 0)
   \<and> set [13, 15] \<subseteq> set (mask_keys (datasets example_state ! 0))
   \<and> (''ice_thickness'', [[Some 1, Some 2, Some 3, Some 4], [Some 5, None, Some 7, Some 8]])
        \<in> set (var_data example_state 0)
   \<and> region_mask (datasets example_state ! 0) = [13, 10, 21, 15]
   \<and> (\<exists>out s' arr'.
        restrictRegionally regional_analysis_env 0 (PyList [13, 15]) example_state = (Inr out, s')
      \<and> map_of (var_data s' out) ''ice_thickness'' = Some arr'
      \<and> length arr' = 2 \<and> length (arr' ! 1) = 4
      \<and> arr' ! 1 ! 3 = Some 8 \<and> arr' ! 1 ! 2 = None)"
proof -
  let ?arr = "[[Some 1, Some 2, Some 3, Some 4], [Some 5, None, Some 7, Some (8::int)]]"
  have ok: "valid_ref example_state 0" and grid: "gridded example_state 0"
    and cat: "catalogue_ok (datasets example_state ! 0)"
    and known: "mask_catalogued (datasets example_state ! 0)"
    and sub: "set [13, 15] \<subseteq> set (mask_keys (datasets example_state ! 0))"
    and var: "(''ice_thickness'', ?arr) \<in> set (var_data example_state 0)"
    and rm: "region_mask (datasets example_state ! 0) = [13, 10, 21, 15]"
    and keys: "mask_keys (datasets example_state ! 0) = [10, 11, 12, 13, 15, 21]"
    by code_simp+
  have name: "''ice_thickness'' \<noteq> ''seaice_conc_monthly_cdr''"
    by simp
  have ne: "[13, 15 :: int] \<noteq> [] \<or> warnings_imported regional_analysis_env"
    by simp
  note inst = filtered_cells [OF ok grid cat known sub ne var name, of 1]
  from inst [of 3] obtain out s' arr' where
    run: "restrictRegionally regional_analysis_env 0 (PyList [13, 15]) example_state = (Inr out, s')"
    and look: "map_of (var_data s' out) ''ice_thickness'' = Some arr'"
    and shape: "length arr' = 2" "length (arr' ! 1) = 4"
    and c3: "arr' ! 1 ! 3 = Some 8"
    by (auto simp: rm keys)
  from inst [of 2] run look have c2: "arr' ! 1 ! 2 = None"
    by (auto simp: rm keys)
  from ok grid cat known sub var rm run look shape c3 c2 show ?thesis
    by blast
qed

text \<open>
  C2. The variable \<^verbatim>\<open>seaice_conc_monthly_cdr\<close> of the dataset returned by
  \<^verbatim>\<open>restrictRegionally\<close> is identical to that variable of the input dataset,
  whatever the selection: no cell of it is replaced by the missing-value sentinel. The
  first half of the statement says when a dataset is returned (for the empty selection
  the name \<^verbatim>\<open>warnings\<close> has to be bound); the second half holds for every returned
  dataset.
\<close>

theorem seaice_conc_untouched:
  assumes ok: "valid_ref s ds"
  shows "(catalogue_ok (datasets s ! ds) \<and> set rkl \<subseteq> set (mask_keys (datasets s ! ds))
            \<and> (rkl \<noteq> [] \<or> warnings_imported env)
          \<longrightarrow> (\<exists>out s'. restrictRegionally env ds (PyList rkl) s = (Inr out, s')))
       \<and> (\<forall>out s'. restrictRegionally env ds (PyList rkl) s = (Inr out, s')
          \<longrightarrow> map_of (var_data s' out) ''seaice_conc_monthly_cdr''
              = map_of (var_data s ds) ''seaice_conc_monthly_cdr'')"
proof (intro conjI impI allI)
  assume "catalogue_ok (datasets s ! ds) \<and> set rkl \<subseteq> set (mask_keys (datasets s ! ds))
            \<and> (rkl \<noteq> [] \<or> warnings_imported env)"
  with restrictRegionally_total [OF ok, of rkl env]
  show "\<exists>out s'. restrictRegionally env ds (PyList rkl) s = (Inr out, s')"
    by blast
next
  fix out s'
  assume run: "restrictRegionally env ds (PyList rkl) s = (Inr out, s')"
  from restrictRegionally_Inr [OF ok run] obtain ktr where
    "var_data s' out =
        map (\<lambda>(n, arr). (n, if n \<noteq> ''seaice_conc_monthly_cdr''
                             then excluded ktr (region_mask (datasets s ! ds)) arr else arr))
          (var_data s ds)"
    by blast
  then show "map_of (var_data s' out) ''seaice_conc_monthly_cdr''
              = map_of (var_data s ds) ''seaice_conc_monthly_cdr''"
    by (simp add: map_of_map_keyed option.map_ident)
qed

text \<open>On the example dataset, restricted to the Beaufort Sea (key 13): the concentration
  keeps all its cells while the thickness keeps only the cell of region 13.\<close>

theorem seaice_conc_untouched_witness:
  "valid_ref example_state 0
   \<and> fst (restrictRegionally mapping_env 0 (PyList [13]) example_state) = Inr 1
   \<and> map_of (var_data (snd (restrictRegionally mapping_env 0 (PyList [13]) example_state)) 1)
        ''seaice_conc_monthly_cdr''
      = Some [[Some 90, Some 80, Some 70, Some 60], [Some 95, Some 85, Some 75, Some 65]]
   \<and> map_of (var_data (snd (restrictRegionally mapping_env 0 (PyList [13]) example_state)) 1)
        ''ice_thickness''
      = Some [[Some 1, None, None, None], [Some 5, None, None, None]]"
proof -
  let ?run = "restrictRegionally mapping_env 0 (PyList [13]) example_state"
  have ok: "valid_ref example_state 0"
    by code_simp
  have out: "fst ?run = Inr 1"
    by code_simp
  then have run: "?run = (Inr 1, snd ?run)"
    by (simp add: prod_eq_iff)
  from seaice_conc_untouched [OF ok, of "[13]" mapping_env] run
  have "map_of (var_data (snd ?run) 1) ''seaice_conc_monthly_cdr''
        = map_of (var_data example_state 0) ''seaice_conc_monthly_cdr''"
    by blast
  moreover have "map_of (var_data example_state 0) ''seaice_conc_monthly_cdr''
        = Some [[Some 90, Some 80, Some 70, Some 60], [Some 95, Some 85, Some 75, Some 65]]"
    by code_simp
  moreover have "map_of (var_data (snd ?run) 1) ''ice_thickness''
      = Some [[Some 1, None, None, None], [Some 5, None, None, None]]"
    by code_simp
  ultimately show ?thesis
    using ok out by simp
qed

text \<open>
  C3. A call never changes the input dataset as the caller can observe it. Every object
  that was in the store before the call (dataset objects, array buffers, attribute
  dictionaries) is the same after it, whatever the outcome, so everything that can be
  read from the input dataset is unchanged. A returned dataset is a new object. When
  \<^verbatim>\<open>regionKeyList\<close> is not a list or holds a key that is not catalogued, the call
  raises and the store is exactly the store before the call.
\<close>

theorem input_not_mutated:
  assumes ok: "valid_ref s ds" and run: "restrictRegionally env ds v s = (r, s')"
  shows "take (length (datasets s)) (datasets s') = datasets s
       \<and> take (length (arrays s)) (arrays s') = arrays s
       \<and> take (length (dicts s)) (dicts s') = dicts s
       \<and> observe s' ds = observe s ds
       \<and> (\<forall>out. r = Inr out \<longrightarrow> out = length (datasets s) \<and> ds < out \<and> out < length (datasets s'))
       \<and> (py_type v \<noteq> list_type \<or> \<not> set (py_items v) \<subseteq> set (mask_keys (datasets s ! ds))
            \<longrightarrow> (\<exists>e. r = Inl e) \<and> s' = s)"
proof -
  from restrictRegionally_store [OF ok run] obtain x y z where
    st: "datasets s' = datasets s @ x" "arrays s' = arrays s @ y" "dicts s' = dicts s @ z"
    by blast
  have a: "take (length (datasets s)) (datasets s') = datasets s"
    "take (length (arrays s)) (arrays s') = arrays s"
    "take (length (dicts s)) (dicts s') = dicts s"
    by (simp_all add: st)
  have b: "observe s' ds = observe s ds"
    using ok st by (rule observe_preserved)
  have c: "\<forall>out. r = Inr out \<longrightarrow> out = length (datasets s) \<and> ds < out \<and> out < length (datasets s')"
  proof (intro allI impI)
    fix out
    assume "r = Inr out"
    with run have run': "restrictRegionally env ds v s = (Inr out, s')"
      by simp
    from restrictRegionally_Inr [OF ok run'] have "out = length (datasets s)"
      and "datasets s' = datasets s @ [datasets s' ! out]"
      by blast+
    moreover from ok have "ds < length (datasets s)"
      by (simp add: valid_ref_def)
    ultimately show "out = length (datasets s) \<and> ds < out \<and> out < length (datasets s')"
      by (metis length_append_singleton lessI)
  qed
  have d: "py_type v \<noteq> list_type \<or> \<not> set (py_items v) \<subseteq> set (mask_keys (datasets s ! ds))
            \<longrightarrow> (\<exists>e. r = Inl e) \<and> s' = s"
    using restrictRegionally_rejects [of v s ds env] run by auto
  from a b c d show ?thesis
    by blast
qed

text \<open>On the example dataset: a successful call, a call with an integer instead of a
  list, and a call with the unknown key 999.\<close>

theorem input_not_mutated_witness:
  "valid_ref example_state 0
   \<and> fst (restrictRegionally mapping_env 0 (PyList [13]) example_state) = Inr 1
   \<and> observe (snd (restrictRegionally mapping_env 0 (PyList [13]) example_state)) 0
       = observe example_state 0
   \<and> restrictRegionally mapping_env 0 (PyInt 13) example_state
       = (Inl (ValueError not_a_list_msg), example_state)
   \<and> restrictRegionally mapping_env 0 (PyList [13, 999]) example_state
       = (Inl (ValueError (unknown_key_msg 999)), example_state)"
proof -
  let ?run = "restrictRegionally mapping_env 0 (PyList [13]) example_state"
  have ok: "valid_ref example_state 0"
    by code_simp
  have out: "fst ?run = Inr 1"
    by code_simp
  have run: "?run = (fst ?run, snd ?run)"
    by simp
  have "observe (snd ?run) 0 = observe example_state 0"
    using input_not_mutated [OF ok run] by blast
  moreover have "fst (restrictRegionally mapping_env 0 (PyInt 13) example_state)
       = Inl (ValueError not_a_list_msg)"
    by code_simp
  moreover have "snd (restrictRegionally mapping_env 0 (PyInt 13) example_state) = example_state"
    using input_not_mutated [OF ok, of mapping_env "PyInt 13",
        OF prod.collapse [symmetric]]
    by simp
  moreover have "fst (restrictRegionally mapping_env 0 (PyList [13, 999]) example_state)
       = Inl (ValueError (unknown_key_msg 999))"
    by code_simp
  moreover have "\<not> set (py_items (PyList [13, 999])) \<subseteq> set (mask_keys (datasets example_state ! 0))"
    by code_simp
  then have "snd (restrictRegionally mapping_env 0 (PyList [13, 999]) example_state) = example_state"
    using input_not_mutated [OF ok, of mapping_env "PyList [13, 999]",
        OF prod.collapse [symmetric]]
    by blast
  ultimately show ?thesis
    using ok out by (simp add: prod_eq_iff)
qed

text \<open>
  C4 (as amended). The type check accepts exactly the values whose type is
  \<^verbatim>\<open>list\<close>. Every other value, whether an integer, a string, a set or a tuple, is
  refused with the \<^verbatim>\<open>ValueError\<close> carrying the guidance text, whatever its elements
  are and with the store unchanged; for a list neither \<^verbatim>\<open>checkKeys\<close> nor the whole
  call ends with that error.
\<close>

theorem list_type_check:
  assumes ok: "valid_ref s ds"
    and len: "length (mask_keys (datasets s ! ds)) = length (mask_labels (datasets s ! ds))"
  shows "(py_type v \<noteq> list_type \<longrightarrow>
            checkKeys env v (regionTbl_of (datasets s ! ds)) s = (Inl (ValueError not_a_list_msg), s)
          \<and> restrictRegionally env ds v s = (Inl (ValueError not_a_list_msg), s))
       \<and> (py_type v = list_type \<longrightarrow>
            fst (checkKeys env v (regionTbl_of (datasets s ! ds)) s) \<noteq> Inl (ValueError not_a_list_msg)
          \<and> fst (restrictRegionally env ds v s) \<noteq> Inl (ValueError not_a_list_msg))"
proof (intro conjI impI)
  let ?tbl = "regionTbl_of (datasets s ! ds)"
  have tbl: "DataFrame (mask_keys (datasets s ! ds)) (mask_labels (datasets s ! ds)) = Inr ?tbl"
    using len by (simp add: DataFrame_ok regionTbl_of_def)
  {
    assume no: "py_type v \<noteq> list_type"
    then show chk: "checkKeys env v ?tbl s = (Inl (ValueError not_a_list_msg), s)"
      by (simp add: checkKeys_def)
    with tbl show "restrictRegionally env ds v s = (Inl (ValueError not_a_list_msg), s)"
      by (simp add: restrictRegionally_def Let_def)
  }
  {
    assume yes: "py_type v = list_type"
    obtain r1 s1 where chk: "checkKeys env v ?tbl s = (r1, s1)"
      by (cases "checkKeys env v ?tbl s")
    show c1: "fst (checkKeys env v ?tbl s) \<noteq> Inl (ValueError not_a_list_msg)"
    proof (cases r1)
      case (Inl e)
      from checkKeys_list_Inl [OF yes chk [unfolded Inl]] show ?thesis
        by (auto simp: chk Inl msg_differ)
    next
      case (Inr u)
      with chk show ?thesis by simp
    qed
    show "fst (restrictRegionally env ds v s) \<noteq> Inl (ValueError not_a_list_msg)"
    proof (cases r1)
      case (Inl e)
      with tbl chk have "fst (restrictRegionally env ds v s) = Inl e"
        by (simp add: restrictRegionally_def Let_def)
      with c1 chk Inl show ?thesis by simp
    next
      case (Inr u)
      from restrictRegionally_after_check [OF ok tbl chk [unfolded Inr]] obtain s3 x where
        "restrictRegionally env ds v s =
           (case label_items ?tbl (py_items v) of Inl e \<Rightarrow> (Inl e, s3) | Inr labels \<Rightarrow> (Inr (length (datasets s)), x labels))"
        by (elim exE conjE) (rule that)
      then show ?thesis
        by (auto split: sum.splits dest: label_items_Inl simp: msg_differ)
    qed
  }
qed

text \<open>On the example dataset: an integer, a string and a set (holding an unknown key) are
  refused with the guidance text, a list is not.\<close>

theorem list_type_check_witness:
  "valid_ref example_state 0
   \<and> restrictRegionally mapping_env 0 (PyInt 13) example_state
        = (Inl (ValueError not_a_list_msg), example_state)
   \<and> restrictRegionally mapping_env 0 (PyStr ''13'') example_state
        = (Inl (ValueError not_a_list_msg), example_state)
   \<and> restrictRegionally mapping_env 0 (PySet [13, 999]) example_state
        = (Inl (ValueError not_a_list_msg), example_state)
   \<and> fst (restrictRegionally mapping_env 0 (PyList [13]) example_state)
        \<noteq> Inl (ValueError not_a_list_msg)"
proof -
  have ok: "valid_ref example_state 0"
    by code_simp
  have len: "length (mask_keys (datasets example_state ! 0))
           = length (mask_labels (datasets example_state ! 0))"
    by code_simp
  note inst = list_type_check [OF ok len, of _ mapping_env]
  from inst [of "PyInt 13"] inst [of "PyStr ''13''"] inst [of "PySet [13, 999]"]
    inst [of "PyList [13]"] ok
  show ?thesis
    by simp
qed

text \<open>The claim as stated fails for a tuple: a tuple is a sequence, its only element
  is a catalogued key, and the call refuses it with the guidance text, where the list with
  the same element is accepted.\<close>

theorem tuple_is_rejected:
  "py_type (PyTuple [13]) = tuple_type
   \<and> set (py_items (PyTuple [13])) \<subseteq> set (mask_keys (datasets example_state ! 0))
   \<and> fst (restrictRegionally mapping_env 0 (PyTuple [13]) example_state)
        = Inl (ValueError not_a_list_msg)
   \<and> fst (restrictRegionally mapping_env 0 (PyList [13]) example_state) = Inr 1"
  by code_simp

text \<open>
  C5. For a list with at least one element that is not a catalogued key, the call raises
  the \<^verbatim>\<open>ValueError\<close> whose message names the first such element of the list, and the
  store is unchanged: nothing has been copied or filtered and no dataset is returned.
\<close>

theorem unknown_key_raises:
  assumes len: "length (mask_keys (datasets s ! ds)) = length (mask_labels (datasets s ! ds))"
    and bad: "\<not> set rkl \<subseteq> set (mask_keys (datasets s ! ds))"
  shows "\<exists>key. find (\<lambda>key. key \<notin> set (mask_keys (datasets s ! ds))) rkl = Some key
      \<and> key \<in> set rkl \<and> key \<notin> set (mask_keys (datasets s ! ds))
      \<and> restrictRegionally env ds (PyList rkl) s =
          (Inl (ValueError (''Region key '' @ str_int key @ '' does not exist in region mask. '' @
                  newline @ '' Redefine regionKeyList with key numbers from table'')), s)"
proof -
  let ?ks = "mask_keys (datasets s ! ds)"
  from bad obtain key where fnd: "find (\<lambda>key. key \<notin> set ?ks) rkl = Some key"
    by (cases "find (\<lambda>key. key \<notin> set ?ks) rkl") (auto simp: find_None_iff)
  then have mem: "key \<in> set rkl" "key \<notin> set ?ks"
    by (auto simp: find_Some_iff)
  have tbl: "DataFrame ?ks (mask_labels (datasets s ! ds)) = Inr (zip ?ks (mask_labels (datasets s ! ds)))"
    using len by (rule DataFrame_ok)
  have "checkKeys env (PyList rkl) (zip ?ks (mask_labels (datasets s ! ds))) s
        = (Inl (ValueError (unknown_key_msg key)), s)"
    using fnd len by (simp add: checkKeys_def)
  with tbl have "restrictRegionally env ds (PyList rkl) s = (Inl (ValueError (unknown_key_msg key)), s)"
    by (simp add: restrictRegionally_def Let_def)
  with fnd mem show ?thesis
    by (auto simp: unknown_key_msg_def)
qed

text \<open>On the example dataset the list [13, 999, 1000] is refused with a message naming
  999.\<close>

theorem unknown_key_raises_witness:
  "length (mask_keys (datasets example_state ! 0)) = length (mask_labels (datasets example_state ! 0))
   \<and> \<not> set [13, 999, 1000] \<subseteq> set (mask_keys (datasets example_state ! 0))
   \<and> restrictRegionally regional_analysis_env 0 (PyList [13, 999, 1000]) example_state =
        (Inl (ValueError (''Region key 999 does not exist in region mask. '' @
                newline @ '' Redefine regionKeyList with key numbers from table'')), example_state)"
proof -
  let ?ks = "mask_keys (datasets example_state ! 0)"
  have len: "length ?ks = length (mask_labels (datasets example_state ! 0))"
    by code_simp
  have bad: "\<not> set [13, 999, 1000] \<subseteq> set ?ks"
    by code_simp
  have fnd: "find (\<lambda>key. key \<notin> set ?ks) [13, 999, 1000] = Some 999"
    by code_simp
  have str: "str_int 999 = ''999''"
    by code_simp
  from unknown_key_raises [OF len bad, of regional_analysis_env] fnd
  have "restrictRegionally regional_analysis_env 0 (PyList [13, 999, 1000]) example_state =
          (Inl (ValueError (''Region key '' @ str_int 999 @ '' does not exist in region mask. '' @
                  newline @ '' Redefine regionKeyList with key numbers from table'')), example_state)"
    by auto
  with len bad str show ?thesis
    by simp
qed

text \<open>
  C6. The empty selection. In the \<^verbatim>\<open>regional_analysis\<close> notebook the name
  \<^verbatim>\<open>warnings\<close> is never imported, so the call with the empty list ends with a
  \<^verbatim>\<open>NameError\<close> and returns no dataset. In the \<^verbatim>\<open>mapping\<close> notebook the call
  returns a dataset whose thickness is missing everywhere, and the warning is not shown
  because that notebook has set the warning filter to \<^verbatim>\<open>'ignore'\<close>.
\<close>

theorem empty_selection_raises_NameError:
  "restrictRegionally regional_analysis_env 0 (PyList []) example_state
     = (Inl (NameError ''warnings''), example_state)
   \<and> fst (restrictRegionally mapping_env 0 (PyList []) example_state) = Inr 1
   \<and> map_of (var_data (snd (restrictRegionally mapping_env 0 (PyList []) example_state)) 1)
        ''ice_thickness''
      = Some [[None, None, None, None], [None, None, None, None]]
   \<and> shown_warnings (snd (restrictRegionally mapping_env 0 (PyList []) example_state)) = []"
proof -
  have "length (mask_keys (datasets example_state ! 0))
      = length (mask_labels (datasets example_state ! 0))"
    by code_simp
  moreover have "\<not> warnings_imported regional_analysis_env"
    by (simp add: regional_analysis_env_def)
  ultimately have "restrictRegionally regional_analysis_env 0 (PyList []) example_state
     = (Inl (NameError ''warnings''), example_state)"
    by (rule empty_selection_needs_warnings)
  moreover have "fst (restrictRegionally mapping_env 0 (PyList []) example_state) = Inr 1"
    by code_simp
  moreover have "map_of (var_data (snd (restrictRegionally mapping_env 0 (PyList []) example_state)) 1)
        ''ice_thickness''
      = Some [[None, None, None, None], [None, None, None, None]]"
    by code_simp
  moreover have "shown_warnings (snd (restrictRegionally mapping_env 0 (PyList []) example_state)) = []"
    by code_simp
  ultimately show ?thesis
    by simp
qed

text \<open>
  C7 (as amended). For a valid selection without repeated keys the call returns a dataset
  whose metadata under \<^verbatim>\<open>'regions with data'\<close> is \<^verbatim>\<open>All\<close> when the selection has
  as many keys as the catalogue; otherwise \<^verbatim>\<open>Inner Arctic\<close> when the set of selected
  keys is {10, 11, 12, 13, 15}; otherwise the labels of the selected keys, in the order of
  the selection, joined by a comma and a space. (For the empty selection a dataset is
  returned only where the name \<^verbatim>\<open>warnings\<close> is bound.)
\<close>

theorem summary_metadata:
  assumes ok: "valid_ref s ds" and cat: "catalogue_ok (datasets s ! ds)"
    and sub: "set rkl \<subseteq> set (mask_keys (datasets s ! ds))"
    and warned: "rkl \<noteq> [] \<or> warnings_imported env"
    and nodup: "distinct rkl"
  shows "\<exists>out s' labels.
      restrictRegionally env ds (PyList rkl) s = (Inr out, s')
    \<and> map (map_of (regionTbl_of (datasets s ! ds))) rkl = map Some labels
    \<and> map_of (metadata s' out) ''regions with data'' =
        Some (if length rkl = length (mask_keys (datasets s ! ds)) then ''All''
              else if set rkl = {10, 11, 12, 13, 15} then ''Inner Arctic''
              else join '', '' labels)"
proof -
  let ?d = "datasets s ! ds"
  from restrictRegionally_total [OF ok cat sub warned] obtain s' where
    run: "restrictRegionally env ds (PyList rkl) s = (Inr (length (datasets s)), s')"
    by blast
  from restrictRegionally_Inr [OF ok run] obtain labels where
    labels: "label_items (regionTbl_of ?d) rkl = Inr labels"
    and meta: "metadata s' (length (datasets s)) =
        AList.update ''regions with data'' (summary_text (length (mask_keys ?d)) rkl labels)
          (metadata s ds)"
    by auto
  have "map_of (metadata s' (length (datasets s))) ''regions with data'' =
        Some (summary_text (length (mask_keys ?d)) rkl labels)"
    by (simp add: meta update_conv')
  moreover have "length rkl \<le> length (mask_keys ?d)"
  proof -
    have "card (set rkl) \<le> card (set (mask_keys ?d))"
      using sub by (simp add: card_mono)
    moreover have "distinct (mask_keys ?d)"
      using cat by (simp add: catalogue_ok_def)
    ultimately show ?thesis
      using nodup by (simp add: distinct_card)
  qed
  then have "summary_text (length (mask_keys ?d)) rkl labels =
        (if length rkl = length (mask_keys ?d) then ''All''
         else if set rkl = {10, 11, 12, 13, 15} then ''Inner Arctic''
         else join '', '' labels)"
    using label_items_length [OF labels] by (auto simp: summary_text_def)
  ultimately show ?thesis
    using run label_items_Inr [OF labels] by auto
qed


text \<open>On the example dataset: one key, the Inner Arctic keys in another order, the whole
  catalogue, and two keys in an order that differs from the catalogue's.\<close>

theorem summary_metadata_witness:
  "valid_ref example_state 0 \<and> catalogue_ok (datasets example_state ! 0)
   \<and> map_of (metadata (snd (restrictRegionally regional_analysis_env 0 (PyList [13]) example_state)) 1)
        ''regions with data'' = Some ''Beaufort Sea''
   \<and> map_of (metadata (snd (restrictRegionally regional_analysis_env 0
                               (PyList [15, 13, 12, 11, 10]) example_state)) 1)
        ''regions with data'' = Some ''Inner Arctic''
   \<and> map_of (metadata (snd (restrictRegionally regional_analysis_env 0
                               (PyList [10, 11, 12, 13, 15, 21]) example_state)) 1)
        ''regions with data'' = Some ''All''
   \<and> map_of (metadata (snd (restrictRegionally regional_analysis_env 0
                               (PyList [21, 10]) example_state)) 1)
        ''regions with data'' = Some ''Coast, Laptev Sea''"
proof -
  let ?d = "datasets example_state ! 0"
  have ok: "valid_ref example_state 0" and cat: "catalogue_ok ?d"
    by code_simp+
  have n: "length (mask_keys ?d) = 6"
    by code_simp
  have look: "map_of (metadata (snd (restrictRegionally regional_analysis_env 0 (PyList rkl)
                example_state)) 1) ''regions with data'' =
        Some (if length rkl = 6 then ''All''
              else if set rkl = {10, 11, 12, 13, 15} then ''Inner Arctic''
              else join '', '' labels)"
    if sub: "set rkl \<subseteq> set (mask_keys ?d)" and ne: "rkl \<noteq> []"
      and out: "fst (restrictRegionally regional_analysis_env 0 (PyList rkl) example_state) = Inr 1"
      and lab: "map (map_of (regionTbl_of ?d)) rkl = map Some labels"
      and dist: "distinct rkl"
    for rkl labels
  proof -
    from ne have warned: "rkl \<noteq> [] \<or> warnings_imported regional_analysis_env"
      by simp
    from summary_metadata [OF ok cat sub warned dist]
    obtain out' s' labels' where
      run: "restrictRegionally regional_analysis_env 0 (PyList rkl) example_state = (Inr out', s')"
      and lab': "map (map_of (regionTbl_of ?d)) rkl = map Some labels'"
      and res: "map_of (metadata s' out') ''regions with data'' =
        Some (if length rkl = length (mask_keys ?d) then ''All''
              else if set rkl = {10, 11, 12, 13, 15} then ''Inner Arctic''
              else join '', '' labels')"
      by blast
    from lab lab' have "labels' = labels"
      by (simp add: map_eq_conv inj_map_eq_map)
    moreover from run out have "out' = 1" "s' = snd (restrictRegionally regional_analysis_env 0
        (PyList rkl) example_state)"
      by simp_all
    ultimately show ?thesis
      using res n by simp
  qed
  have a: "map_of (metadata (snd (restrictRegionally regional_analysis_env 0 (PyList [13])
                example_state)) 1) ''regions with data'' = Some ''Beaufort Sea''"
  proof -
    have "set [13] \<subseteq> set (mask_keys ?d)" "[13::int] \<noteq> []"
      "fst (restrictRegionally regional_analysis_env 0 (PyList [13]) example_state) = Inr 1"
      "map (map_of (regionTbl_of ?d)) [13] = map Some [''Beaufort Sea'']"
      "distinct [13 :: int]"
      by code_simp+
    from look [OF this] show ?thesis
      by simp
  qed
  have b: "map_of (metadata (snd (restrictRegionally regional_analysis_env 0
                (PyList [15, 13, 12, 11, 10]) example_state)) 1) ''regions with data''
           = Some ''Inner Arctic''"
  proof -
    have "set [15, 13, 12, 11, 10] \<subseteq> set (mask_keys ?d)" "[15, 13, 12, 11, 10::int] \<noteq> []"
      "fst (restrictRegionally regional_analysis_env 0 (PyList [15, 13, 12, 11, 10])
         example_state) = Inr 1"
      "map (map_of (regionTbl_of ?d)) [15, 13, 12, 11, 10] =
         map Some [''Arctic Ocean'', ''Beaufort Sea'', ''Chukchi Sea'', ''E. Siberian Sea'',
                   ''Laptev Sea'']"
      "distinct [15, 13, 12, 11, 10 :: int]"
      by code_simp+
    from look [OF this] have "map_of (metadata (snd (restrictRegionally regional_analysis_env 0
                (PyList [15, 13, 12, 11, 10]) example_state)) 1) ''regions with data''
           = Some (if set [15, 13, 12, 11, 10] = {10, 11, 12, 13, 15 :: int} then ''Inner Arctic''
                   else join '', '' [''Arctic Ocean'', ''Beaufort Sea'', ''Chukchi Sea'',
                                     ''E. Siberian Sea'', ''Laptev Sea''])"
      by simp
    moreover have "set [15, 13, 12, 11, 10] = {10, 11, 12, 13, 15 :: int}"
      by auto
    ultimately show ?thesis
      by simp
  qed
  have c: "map_of (metadata (snd (restrictRegionally regional_analysis_env 0
                (PyList [10, 11, 12, 13, 15, 21]) example_state)) 1) ''regions with data''
           = Some ''All''"
  proof -
    have "set [10, 11, 12, 13, 15, 21] \<subseteq> set (mask_keys ?d)" "[10, 11, 12, 13, 15, 21::int] \<noteq> []"
      "fst (restrictRegionally regional_analysis_env 0 (PyList [10, 11, 12, 13, 15, 21])
         example_state) = Inr 1"
      "map (map_of (regionTbl_of ?d)) [10, 11, 12, 13, 15, 21] =
         map Some (mask_labels ?d)"
      "distinct [10, 11, 12, 13, 15, 21 :: int]"
      by code_simp+
    from look [OF this] show ?thesis
      by simp
  qed
  have d: "map_of (metadata (snd (restrictRegionally regional_analysis_env 0
                (PyList [21, 10]) example_state)) 1) ''regions with data''
           = Some ''Coast, Laptev Sea''"
  proof -
    have "set [21, 10] \<subseteq> set (mask_keys ?d)" "[21, 10::int] \<noteq> []"
      "fst (restrictRegionally regional_analysis_env 0 (PyList [21, 10]) example_state) = Inr 1"
      "map (map_of (regionTbl_of ?d)) [21, 10] = map Some [''Coast'', ''Laptev Sea'']"
      "distinct [21, 10 :: int]"
      by code_simp+
    moreover have "set [21, 10] \<noteq> {10, 11, 12, 13, 15 :: int}"
      by code_simp
    ultimately show ?thesis
      using look [of "[21, 10]" "[''Coast'', ''Laptev Sea'']"] by simp
  qed
  from ok cat a b c d show ?thesis
    by blast
qed

text \<open>The claim as stated fails for a selection that repeats a key and is longer than the
  catalogue: seven times the key 13 against six catalogued keys gives \<^verbatim>\<open>All\<close>,
  although the numbers differ and the selected set is not the Inner Arctic set, where the
  claim asks for the joined labels.\<close>

theorem longer_selection_is_All:
  "set [13, 13, 13, 13, 13, 13, 13] \<subseteq> set (mask_keys (datasets example_state ! 0))
   \<and> length [13, 13, 13, 13, 13, 13, 13 :: int] \<noteq> length (mask_keys (datasets example_state ! 0))
   \<and> set [13, 13, 13, 13, 13, 13, 13] \<noteq> {10, 11, 12, 13, 15 :: int}
   \<and> map_of (metadata (snd (restrictRegionally mapping_env 0
                (PyList [13, 13, 13, 13, 13, 13, 13]) example_state)) 1) ''regions with data''
        = Some ''All''
   \<and> join '', '' (replicate 7 ''Beaufort Sea'') \<noteq> ''All''"
  by code_simp

text \<open>
  C8. The array the exclusion loop ends with does not depend on the order in which the
  keys are excluded: on a mask whose values are all catalogued keys, for every arrangement
  of \<^verbatim>\<open>keysToRemove\<close> it is the array obtained by one single filter with the
  predicate that the region of the cell is an element of \<^verbatim>\<open>regionKeyList\<close>.
\<close>

theorem exclusion_order_irrelevant:
  assumes a: "a < length (arrays s)" and on: "on_grid rmask (arrays s ! a)"
    and known: "set rmask \<subseteq> set catalogue_keys"
    and perm: "mset ks = mset (filter (\<lambda>key. key \<notin> set rkl) catalogue_keys)"
  shows "arrays (snd (remove_keys ks rmask a s)) ! fst (remove_keys ks rmask a s)
           = keep_where (\<lambda>m. m \<in> set rkl) rmask (arrays s ! a)"
proof -
  let ?arr = "arrays s ! a"
  from remove_keys_spec [OF a, of ks rmask] obtain a' ext where
    "remove_keys ks rmask a s = (a', s\<lparr>arrays := arrays s @ ext\<rparr>)"
    "(arrays s @ ext) ! a' = excluded ks rmask ?arr"
    by blast
  then have loop: "arrays (snd (remove_keys ks rmask a s)) ! fst (remove_keys ks rmask a s)
      = excluded ks rmask ?arr"
    by simp
  from perm have "set ks = set (filter (\<lambda>key. key \<notin> set rkl) catalogue_keys)"
    by (rule mset_eq_setD)
  with known have agree: "\<forall>m \<in> set rmask. (m \<notin> set ks) = (m \<in> set rkl)"
    by auto
  have "excluded ks rmask ?arr = keep_where (\<lambda>m. m \<notin> set ks) rmask ?arr"
    using on by (rule excluded_single_predicate)
  also have "\<dots> = keep_where (\<lambda>m. m \<in> set rkl) rmask ?arr"
    using agree by (rule keep_where_cong)
  finally show ?thesis
    by (simp only: loop)
qed

text \<open>On the thickness of the example dataset with the selection [13, 15]: two orders of
  the four keys to remove give the same array.\<close>

theorem exclusion_order_irrelevant_witness:
  "0 < length (arrays example_state)
   \<and> on_grid [13, 10, 21, 15] (arrays example_state ! 0)
   \<and> mset [21, 10, 12, 11 :: int]
       = mset (filter (\<lambda>key. key \<notin> set [13, 15]) [10, 11, 12, 13, 15, 21])
   \<and> set [13, 10, 21, 15] \<subseteq> set [10, 11, 12, 13, 15, 21 :: int]
   \<and> arrays (snd (remove_keys [21, 10, 12, 11] [13, 10, 21, 15] 0 example_state))
        ! fst (remove_keys [21, 10, 12, 11] [13, 10, 21, 15] 0 example_state)
      = [[Some 1, None, None, Some 4], [Some 5, None, None, Some 8]]
   \<and> arrays (snd (remove_keys [10, 11, 12, 21] [13, 10, 21, 15] 0 example_state))
        ! fst (remove_keys [10, 11, 12, 21] [13, 10, 21, 15] 0 example_state)
      = [[Some 1, None, None, Some 4], [Some 5, None, None, Some 8]]"
proof -
  have a: "0 < length (arrays example_state)"
    and on: "on_grid [13, 10, 21, 15] (arrays example_state ! 0)"
    and sub: "set [13, 10, 21, 15] \<subseteq> set [10, 11, 12, 13, 15, 21 :: int]"
    by code_simp+
  have p1: "mset [21, 10, 12, 11 :: int]
      = mset (filter (\<lambda>key. key \<notin> set [13, 15]) [10, 11, 12, 13, 15, 21])"
    by (simp add: add_mset_commute)
  have p2: "mset [10, 11, 12, 21 :: int]
      = mset (filter (\<lambda>key. key \<notin> set [13, 15]) [10, 11, 12, 13, 15, 21])"
    by simp
  have single: "keep_where (\<lambda>m. m \<in> set [13, 15]) [13, 10, 21, 15] (arrays example_state ! 0)
      = [[Some 1, None, None, Some 4], [Some 5, None, None, Some 8]]"
    by code_simp
  have r1: "arrays (snd (remove_keys [21, 10, 12, 11] [13, 10, 21, 15] 0 example_state))
        ! fst (remove_keys [21, 10, 12, 11] [13, 10, 21, 15] 0 example_state)
      = keep_where (\<lambda>m. m \<in> set [13, 15]) [13, 10, 21, 15] (arrays example_state ! 0)"
    by (rule exclusion_order_irrelevant [OF a on sub p1])
  have r2: "arrays (snd (remove_keys [10, 11, 12, 21] [13, 10, 21, 15] 0 example_state))
        ! fst (remove_keys [10, 11, 12, 21] [13, 10, 21, 15] 0 example_state)
      = keep_where (\<lambda>m. m \<in> set [13, 15]) [13, 10, 21, 15] (arrays example_state ! 0)"
    by (rule exclusion_order_irrelevant [OF a on sub p2])
  from a on p1 sub r1 [unfolded single] r2 [unfolded single] show ?thesis
    by blast
qed

text \<open>
  C9. Filtering is idempotent. Whenever the call returns a dataset, the call on that
  dataset with the same \<^verbatim>\<open>regionKeyList\<close> returns a dataset too, and everything that
  can be read from the second result (the data of every variable, the mask, the catalogue
  and the metadata) equals what can be read from the first. The first half of the
  statement says when the first call returns.
\<close>

theorem restrictRegionally_idempotent:
  assumes ok: "valid_ref s ds"
  shows "(catalogue_ok (datasets s ! ds) \<and> set rkl \<subseteq> set (mask_keys (datasets s ! ds))
            \<and> (rkl \<noteq> [] \<or> warnings_imported env)
          \<longrightarrow> (\<exists>out1 s1. restrictRegionally env ds (PyList rkl) s = (Inr out1, s1)))
       \<and> (\<forall>out1 s1. restrictRegionally env ds (PyList rkl) s = (Inr out1, s1)
          \<longrightarrow> (\<exists>out2 s2. restrictRegionally env out1 (PyList rkl) s1 = (Inr out2, s2)
                 \<and> observe s2 out2 = observe s1 out1))"
proof (intro conjI impI allI)
  assume "catalogue_ok (datasets s ! ds) \<and> set rkl \<subseteq> set (mask_keys (datasets s ! ds))
            \<and> (rkl \<noteq> [] \<or> warnings_imported env)"
  with restrictRegionally_total [OF ok, of rkl env]
  show "\<exists>out1 s1. restrictRegionally env ds (PyList rkl) s = (Inr out1, s1)"
    by blast
next
  fix out1 s1
  assume run1: "restrictRegionally env ds (PyList rkl) s = (Inr out1, s1)"
  let ?d = "datasets s ! ds"
  let ?d1 = "datasets s1 ! out1"
  let ?F = "\<lambda>(n, arr :: 'a ndarray). (n, if n \<noteq> ''seaice_conc_monthly_cdr''
              then excluded (filter (\<lambda>key. key \<notin> set rkl) (mask_keys ?d)) (region_mask ?d) arr
              else arr)"
  from restrictRegionally_Inr [OF ok run1] obtain labels where
    len: "length (mask_keys ?d) = length (mask_labels ?d)"
    and sub: "set rkl \<subseteq> set (mask_keys ?d)"
    and warned: "rkl \<noteq> [] \<or> warnings_imported env"
    and labels: "label_items (regionTbl_of ?d) rkl = Inr labels"
    and same: "region_mask ?d1 = region_mask ?d" "mask_keys ?d1 = mask_keys ?d"
      "mask_labels ?d1 = mask_labels ?d"
    and vd1: "var_data s1 out1 = map ?F (var_data s ds)"
    and md1: "metadata s1 out1 = AList.update ''regions with data''
          (summary_text (length (mask_keys ?d)) rkl labels) (metadata s ds)"
    and ok1: "valid_ref s1 out1"
    by auto
  have tbl1: "regionTbl_of ?d1 = regionTbl_of ?d"
    by (simp add: regionTbl_of_def same)
  have len1: "length (mask_keys ?d1) = length (mask_labels ?d1)"
    and sub1: "set rkl \<subseteq> set (mask_keys ?d1)"
    and labels1: "label_items (regionTbl_of ?d1) rkl = Inr labels"
    using len sub labels by (simp_all add: same tbl1)
  from restrictRegionally_returns [OF ok1 len1 sub1 warned labels1] obtain s2 where
    run2: "restrictRegionally env out1 (PyList rkl) s1 = (Inr (length (datasets s1)), s2)"
    by blast
  let ?out2 = "length (datasets s1)"
  from restrictRegionally_Inr [OF ok1 run2] obtain labels2 where
    labels2: "label_items (regionTbl_of ?d1) rkl = Inr labels2"
    and same2: "region_mask (datasets s2 ! ?out2) = region_mask ?d1"
      "mask_keys (datasets s2 ! ?out2) = mask_keys ?d1"
      "mask_labels (datasets s2 ! ?out2) = mask_labels ?d1"
    and vd2: "var_data s2 ?out2 =
        map (\<lambda>(n, arr). (n, if n \<noteq> ''seaice_conc_monthly_cdr''
              then excluded (filter (\<lambda>key. key \<notin> set rkl) (mask_keys ?d1)) (region_mask ?d1) arr
              else arr)) (var_data s1 out1)"
    and md2: "metadata s2 ?out2 = AList.update ''regions with data''
          (summary_text (length (mask_keys ?d1)) rkl labels2) (metadata s1 out1)"
    by auto
  from labels1 labels2 have l2: "labels2 = labels"
    by simp
  have "var_data s2 ?out2 = map ?F (map ?F (var_data s ds))"
    by (simp only: vd2 same vd1)
  then have v: "var_data s2 ?out2 = var_data s1 out1"
    by (simp only: filter_twice vd1)
  have m: "metadata s2 ?out2 = metadata s1 out1"
    by (simp add: md2 l2 same md1)
  have "observe s2 ?out2 = observe s1 out1"
    by (simp add: observe_def v m same2)
  with run2 show "\<exists>out2 s2. restrictRegionally env out1 (PyList rkl) s1 = (Inr out2, s2)
                 \<and> observe s2 out2 = observe s1 out1"
    by blast
qed

text \<open>On the example dataset with the selection [13, 15], filtered once and then
  again.\<close>

theorem restrictRegionally_idempotent_witness:
  "valid_ref example_state 0
   \<and> fst (restrictRegionally mapping_env 0 (PyList [13, 15]) example_state) = Inr 1
   \<and> fst (restrictRegionally mapping_env 1 (PyList [13, 15])
             (snd (restrictRegionally mapping_env 0 (PyList [13, 15]) example_state))) = Inr 2
   \<and> observe (snd (restrictRegionally mapping_env 1 (PyList [13, 15])
                (snd (restrictRegionally mapping_env 0 (PyList [13, 15]) example_state)))) 2
      = observe (snd (restrictRegionally mapping_env 0 (PyList [13, 15]) example_state)) 1
   \<and> observe (snd (restrictRegionally mapping_env 0 (PyList [13, 15]) example_state)) 1
      = ([(''ice_thickness'', [[Some 1, None, None, Some 4], [Some 5, None, None, Some 8]]),
          (''seaice_conc_monthly_cdr'',
           [[Some 90, Some 80, Some 70, Some 60], [Some 95, Some 85, Some 75, Some 65]])],
         [13, 10, 21, 15], [10, 11, 12, 13, 15, 21],
         [''Laptev Sea'', ''E. Siberian Sea'', ''Chukchi Sea'', ''Beaufort Sea'',
          ''Arctic Ocean'', ''Coast''],
         [(''title'', ''icesat2-book-data''), (''regions with data'', ''Beaufort Sea, Arctic Ocean'')])"
proof -
  let ?run1 = "restrictRegionally mapping_env 0 (PyList [13, 15]) example_state"
  let ?run2 = "restrictRegionally mapping_env 1 (PyList [13, 15]) (snd ?run1)"
  have ok: "valid_ref example_state 0"
    by code_simp
  have out1: "fst ?run1 = Inr 1"
    by code_simp
  then have run1: "?run1 = (Inr 1, snd ?run1)"
    by (simp add: prod_eq_iff)
  from restrictRegionally_idempotent [OF ok, of "[13, 15]" mapping_env] run1
  obtain out2 s2 where run2: "?run2 = (Inr out2, s2)"
    and same: "observe s2 out2 = observe (snd ?run1) 1"
    by blast
  have out2: "fst ?run2 = Inr 2"
    by code_simp
  with run2 have "out2 = 2" "s2 = snd ?run2"
    by simp_all
  with same have idem: "observe (snd ?run2) 2 = observe (snd ?run1) 1"
    by simp
  have obs: "observe (snd ?run1) 1
      = ([(''ice_thickness'', [[Some 1, None, None, Some 4], [Some 5, None, None, Some 8]]),
          (''seaice_conc_monthly_cdr'',
           [[Some 90, Some 80, Some 70, Some 60], [Some 95, Some 85, Some 75, Some 65]])],
         [13, 10, 21, 15], [10, 11, 12, 13, 15, 21],
         [''Laptev Sea'', ''E. Siberian Sea'', ''Chukchi Sea'', ''Beaufort Sea'',
          ''Arctic Ocean'', ''Coast''],
         [(''title'', ''icesat2-book-data''), (''regions with data'', ''Beaufort Sea, Arctic Ocean'')])"
    by code_simp
  from ok out1 out2 idem obs show ?thesis
    by blast
qed

text \<open>
  C10 (as amended). A selection may repeat a key: validation only asks that every element
  is a catalogued key. Each element of the selection is looked up on its own, so there are
  as many labels as elements, a repeated key giving a repeated label. The branch is chosen
  by the number of labels: with at least as many labels as the catalogue has keys the
  metadata is \<^verbatim>\<open>All\<close>, whether or not every catalogued key is selected; with fewer
  labels it is \<^verbatim>\<open>Inner Arctic\<close> when the set of selected keys is
  {10, 11, 12, 13, 15}, repeated keys or not, and otherwise the labels joined in the order
  of the selection, repeats included.
\<close>

theorem duplicate_keys_accepted:
  assumes ok: "valid_ref s ds" and cat: "catalogue_ok (datasets s ! ds)"
    and sub: "set rkl \<subseteq> set (mask_keys (datasets s ! ds))"
    and warned: "rkl \<noteq> [] \<or> warnings_imported env"
  shows "\<exists>out s' labels.
      restrictRegionally env ds (PyList rkl) s = (Inr out, s')
    \<and> label_items (regionTbl_of (datasets s ! ds)) rkl = Inr labels
    \<and> length labels = length rkl
    \<and> (\<forall>i < length rkl. map_of (regionTbl_of (datasets s ! ds)) (rkl ! i) = Some (labels ! i))
    \<and> (length (mask_keys (datasets s ! ds)) \<le> length labels
        \<longrightarrow> map_of (metadata s' out) ''regions with data'' = Some ''All'')
    \<and> (length labels < length (mask_keys (datasets s ! ds)) \<and> set rkl = {10, 11, 12, 13, 15}
        \<longrightarrow> map_of (metadata s' out) ''regions with data'' = Some ''Inner Arctic'')
    \<and> (length labels < length (mask_keys (datasets s ! ds)) \<and> set rkl \<noteq> {10, 11, 12, 13, 15}
        \<longrightarrow> map_of (metadata s' out) ''regions with data'' = Some (join '', '' labels))"
proof -
  let ?d = "datasets s ! ds"
  from restrictRegionally_total [OF ok cat sub warned] obtain s' where
    run: "restrictRegionally env ds (PyList rkl) s = (Inr (length (datasets s)), s')"
    by blast
  from restrictRegionally_Inr [OF ok run] obtain labels where
    labels: "label_items (regionTbl_of ?d) rkl = Inr labels"
    and meta: "metadata s' (length (datasets s)) =
        AList.update ''regions with data'' (summary_text (length (mask_keys ?d)) rkl labels)
          (metadata s ds)"
    by auto
  have look: "map_of (metadata s' (length (datasets s))) ''regions with data'' =
        Some (summary_text (length (mask_keys ?d)) rkl labels)"
    by (simp add: meta update_conv')
  have n: "length labels = length rkl"
    using labels by (rule label_items_length)
  have each: "\<forall>i < length rkl. map_of (regionTbl_of ?d) (rkl ! i) = Some (labels ! i)"
  proof (intro allI impI)
    fix i
    assume "i < length rkl"
    with label_items_Inr [OF labels] n
    show "map_of (regionTbl_of ?d) (rkl ! i) = Some (labels ! i)"
      by (metis nth_map)
  qed
  have all: "length (mask_keys ?d) \<le> length labels
        \<longrightarrow> map_of (metadata s' (length (datasets s))) ''regions with data'' = Some ''All''"
    by (simp add: look summary_text_def)
  have joined: "length labels < length (mask_keys ?d) \<and> set rkl \<noteq> {10, 11, 12, 13, 15}
        \<longrightarrow> map_of (metadata s' (length (datasets s))) ''regions with data''
            = Some (join '', '' labels)"
    by (simp add: look summary_text_def)
  have inner: "length labels < length (mask_keys ?d) \<and> set rkl = {10, 11, 12, 13, 15}
        \<longrightarrow> map_of (metadata s' (length (datasets s))) ''regions with data''
            = Some ''Inner Arctic''"
    by (simp add: look summary_text_def)
  from run labels n each all inner joined show ?thesis
    by blast
qed

text \<open>On the example dataset with six catalogued keys: the key 13 twice gives the label
  twice; the key 13 six times gives \<^verbatim>\<open>All\<close>, although only the region 13 is selected
  and only its cell is kept.\<close>

theorem duplicate_keys_accepted_witness:
  "valid_ref example_state 0 \<and> catalogue_ok (datasets example_state ! 0)
   \<and> map_of (metadata (snd (restrictRegionally regional_analysis_env 0
                (PyList [13, 13]) example_state)) 1) ''regions with data''
        = Some ''Beaufort Sea, Beaufort Sea''
   \<and> \<not> set (mask_keys (datasets example_state ! 0)) \<subseteq> set [13, 13, 13, 13, 13, 13]
   \<and> map_of (metadata (snd (restrictRegionally regional_analysis_env 0
                (PyList [13, 13, 13, 13, 13, 13]) example_state)) 1) ''regions with data''
        = Some ''All''
   \<and> map_of (var_data (snd (restrictRegionally regional_analysis_env 0
                (PyList [13, 13, 13, 13, 13, 13]) example_state)) 1) ''ice_thickness''
        = Some [[Some 1, None, None, None], [Some 5, None, None, None]]"
proof -
  let ?d = "datasets example_state ! 0"
  have ok: "valid_ref example_state 0" and cat: "catalogue_ok ?d"
    by code_simp+
  have n: "length (mask_keys ?d) = 6"
    by code_simp
  have a: "map_of (metadata (snd (restrictRegionally regional_analysis_env 0
                (PyList [13, 13]) example_state)) 1) ''regions with data''
        = Some ''Beaufort Sea, Beaufort Sea''"
  proof -
    have sub: "set [13, 13] \<subseteq> set (mask_keys ?d)"
      and lab: "label_items (regionTbl_of ?d) [13, 13] = Inr [''Beaufort Sea'', ''Beaufort Sea'']"
      and out: "fst (restrictRegionally regional_analysis_env 0 (PyList [13, 13]) example_state)
                = Inr 1"
      and ne: "set [13, 13] \<noteq> {10, 11, 12, 13, 15 :: int}"
      by code_simp+
    from duplicate_keys_accepted [OF ok cat sub, of regional_analysis_env]
    obtain out' s' labels where
      run: "restrictRegionally regional_analysis_env 0 (PyList [13, 13]) example_state = (Inr out', s')"
      and lab': "label_items (regionTbl_of ?d) [13, 13] = Inr labels"
      and res: "length labels < length (mask_keys ?d) \<and> set [13, 13] \<noteq> {10, 11, 12, 13, 15 :: int}
        \<longrightarrow> map_of (metadata s' out') ''regions with data'' = Some (join '', '' labels)"
      by auto
    from lab lab' have "labels = [''Beaufort Sea'', ''Beaufort Sea'']"
      by simp
    moreover from run out have "out' = 1" "s' = snd (restrictRegionally regional_analysis_env 0
        (PyList [13, 13]) example_state)"
      by simp_all
    ultimately show ?thesis
      using res n ne by simp
  qed
  have b: "map_of (metadata (snd (restrictRegionally regional_analysis_env 0
                (PyList [13, 13, 13, 13, 13, 13]) example_state)) 1) ''regions with data''
        = Some ''All''"
  proof -
    have sub: "set [13, 13, 13, 13, 13, 13] \<subseteq> set (mask_keys ?d)"
      and out: "fst (restrictRegionally regional_analysis_env 0
                  (PyList [13, 13, 13, 13, 13, 13]) example_state) = Inr 1"
      by code_simp+
    have nonempty: "[13, 13, 13, 13, 13, 13 :: int] \<noteq> [] \<or> warnings_imported regional_analysis_env"
      by simp
    from duplicate_keys_accepted [OF ok cat sub nonempty]
    obtain out' s' and labels :: "string list" where
      run: "restrictRegionally regional_analysis_env 0 (PyList [13, 13, 13, 13, 13, 13])
              example_state = (Inr out', s')"
      and len: "length labels = length [13, 13, 13, 13, 13, 13 :: int]"
      and res: "length (mask_keys ?d) \<le> length labels
        \<longrightarrow> map_of (metadata s' out') ''regions with data'' = Some ''All''"
      by blast
    from run out have "out' = 1" "s' = snd (restrictRegionally regional_analysis_env 0
        (PyList [13, 13, 13, 13, 13, 13]) example_state)"
      by simp_all
    then show ?thesis
      using res n len by simp
  qed
  have c: "\<not> set (mask_keys ?d) \<subseteq> set [13, 13, 13, 13, 13, 13]"
    by code_simp
  have d: "map_of (var_data (snd (restrictRegionally regional_analysis_env 0
                (PyList [13, 13, 13, 13, 13, 13]) example_state)) 1) ''ice_thickness''
        = Some [[Some 1, None, None, None], [Some 5, None, None, None]]"
    by code_simp
  from ok cat a b c d show ?thesis
    by blast
qed

text \<open>The claim as stated fails for a selection that repeats a key of the Inner Arctic
  set: over a catalogue of seven keys the six-element selection [10, 11, 12, 13, 15, 15]
  has fewer labels than the catalogue has keys and a repeated label, and the metadata is
  \<^verbatim>\<open>Inner Arctic\<close>, not the joined labels.\<close>

theorem repeated_inner_arctic_key:
  "valid_ref wider_state 0 \<and> catalogue_ok (datasets wider_state ! 0)
   \<and> set [10, 11, 12, 13, 15, 15] \<subseteq> set (mask_keys (datasets wider_state ! 0))
   \<and> \<not> distinct [10, 11, 12, 13, 15, 15 :: int]
   \<and> length [10, 11, 12, 13, 15, 15 :: int] < length (mask_keys (datasets wider_state ! 0))
   \<and> fst (restrictRegionally mapping_env 0 (PyList [10, 11, 12, 13, 15, 15]) wider_state) = Inr 1
   \<and> label_items (regionTbl_of (datasets wider_state ! 0)) [10, 11, 12, 13, 15, 15]
        = Inr [''Laptev Sea'', ''E. Siberian Sea'', ''Chukchi Sea'', ''Beaufort Sea'',
               ''Arctic Ocean'', ''Arctic Ocean'']
   \<and> map_of (metadata (snd (restrictRegionally mapping_env 0
                (PyList [10, 11, 12, 13, 15, 15]) wider_state)) 1) ''regions with data''
        = Some ''Inner Arctic''
   \<and> join '', '' [''Laptev Sea'', ''E. Siberian Sea'', ''Chukchi Sea'', ''Beaufort Sea'',
                   ''Arctic Ocean'', ''Arctic Ocean''] \<noteq> ''Inner Arctic''"
  by code_simp

end
